theory Spec2Isabelle
  imports Main "HOL-Library.Sublist"
begin

section \<open>Text\<close>

text \<open>
  Python's \<open>str\<close> is a sequence of code points. The model works over HOL's \<open>string\<close>, whose
  characters are the code points 0 to 255 (Latin-1), and \<open>length\<close> counts code points. The
  character tables below are Python's for that range. Two places of the program leave the range:
  the paperclip glyph U+1F4CE that prefixes a bot bubble (see \<open>PAPERCLIP\<close> below), and
  \<open>str.upper\<close> at the three code points 181, 223 and 255.
\<close>

definition code :: "char \<Rightarrow> nat" where
  "code c = of_char c"

definition isspace :: "char \<Rightarrow> bool" where
  \<comment> \<open>\<open>str.isspace\<close>, which is also what \<open>str.strip()\<close> removes and what \<open>\s\<close> matches\<close>
  "isspace c = (let n = code c in
     (9 \<le> n \<and> n \<le> 13) \<or> (28 \<le> n \<and> n \<le> 32) \<or> n = 133 \<or> n = 160)"

definition isword :: "char \<Rightarrow> bool" where
  \<comment> \<open>\<open>\w\<close> of a str pattern: \<open>str.isalnum\<close> or the underscore\<close>
  "isword c = (let n = code c in
     (48 \<le> n \<and> n \<le> 57) \<or> (65 \<le> n \<and> n \<le> 90) \<or> n = 95 \<or> (97 \<le> n \<and> n \<le> 122) \<or>
     n = 170 \<or> n = 178 \<or> n = 179 \<or> n = 181 \<or> n = 185 \<or> n = 186 \<or> (188 \<le> n \<and> n \<le> 190) \<or>
     (192 \<le> n \<and> n \<le> 214) \<or> (216 \<le> n \<and> n \<le> 246) \<or> 248 \<le> n)"

definition lower_char :: "char \<Rightarrow> char" where
  "lower_char c = (let n = code c in
     if (65 \<le> n \<and> n \<le> 90) \<or> (192 \<le> n \<and> n \<le> 214) \<or> (216 \<le> n \<and> n \<le> 222)
     then char_of (n + 32) else c)"

definition upper_char :: "char \<Rightarrow> char" where
  \<comment> \<open>Python maps 181 and 255 outside Latin-1 and 223 to two letters; they are left as they are\<close>
  "upper_char c = (let n = code c in
     if (97 \<le> n \<and> n \<le> 122) \<or> (224 \<le> n \<and> n \<le> 246) \<or> (248 \<le> n \<and> n \<le> 254)
     then char_of (n - 32) else c)"

definition lower :: "string \<Rightarrow> string" where
  "lower s = map lower_char s"

definition upper :: "string \<Rightarrow> string" where
  "upper s = map upper_char s"

definition lstrip :: "string \<Rightarrow> string" where
  "lstrip s = dropWhile isspace s"

definition rstrip :: "string \<Rightarrow> string" where
  "rstrip s = rev (dropWhile isspace (rev s))"

definition strip :: "string \<Rightarrow> string" where
  "strip s = rstrip (lstrip s)"

definition rstrip_chars :: "string \<Rightarrow> string \<Rightarrow> string" where
  \<comment> \<open>\<open>s.rstrip(chars)\<close>\<close>
  "rstrip_chars chars s = rev (dropWhile (\<lambda>c. c \<in> set chars) (rev s))"

definition contains :: "string \<Rightarrow> string \<Rightarrow> bool" where
  \<comment> \<open>\<open>contains s d\<close> is Python's \<open>d in s\<close>\<close>
  "contains s d = sublist d s"

definition startswith :: "string \<Rightarrow> string \<Rightarrow> bool" where
  "startswith s p = prefix p s"

definition endswith :: "string \<Rightarrow> string \<Rightarrow> bool" where
  "endswith s p = suffix p s"

definition replace_char :: "char \<Rightarrow> string \<Rightarrow> string \<Rightarrow> string" where
  \<comment> \<open>\<open>s.replace(c, new)\<close> for a one-character \<open>c\<close>\<close>
  "replace_char c new s = concat (map (\<lambda>x. if x = c then new else [x]) s)"

section \<open>Regular expressions\<close>

text \<open>
  The patterns of the program use literals, \<open>.\<close>, \<open>\s\<close>, a negated one-character class,
  sequence, alternation, \<open>?\<close>, \<open>*\<close>, \<open>+\<close>, the lazy \<open>+?\<close>, groups, \<open>\b\<close> and \<open>$\<close>. Python's
  \<open>re\<close> is a backtracking matcher: it explores the ways of matching in a fixed order of
  preference and takes the first that succeeds. \<open>ms r s\<close> lists the states that \<open>r\<close> can reach
  from \<open>s\<close> in that order, so the head of the list is the match that \<open>re\<close> reports.
\<close>

datatype rx =
    Chr char
  | Dot
  | Space
  | NotChr char
  | Eps
  | Seq rx rx
  | Alt rx rx
  | Opt rx
  | Star rx
  | Plus rx
  | LazyPlus rx
  | Grp nat rx
  | WordB
  | Eol

record mst =
  seen :: string   \<comment> \<open>the text before the position, last character first\<close>
  rest :: string   \<comment> \<open>the text from the position on\<close>
  caps :: "(nat \<times> string) list"   \<comment> \<open>the groups closed so far, latest first\<close>

definition step :: "(char \<Rightarrow> bool) \<Rightarrow> mst \<Rightarrow> mst list" where
  "step P s = (case rest s of
       [] \<Rightarrow> []
     | c # cs \<Rightarrow> if P c then [s\<lparr>seen := c # seen s, rest := cs\<rparr>] else [])"

definition advances :: "mst \<Rightarrow> mst \<Rightarrow> bool" where
  "advances s t = (length (rest t) < length (rest s))"

primrec greedy :: "(mst \<Rightarrow> mst list) \<Rightarrow> nat \<Rightarrow> mst \<Rightarrow> mst list" where
  \<comment> \<open>zero or more rounds of \<open>f\<close>, more rounds preferred; a round has to consume input, so
      \<open>length (rest s)\<close> rounds are all there can be\<close>
  "greedy f 0 s = [s]"
| "greedy f (Suc n) s = concat (map (greedy f n) (filter (advances s) (f s))) @ [s]"

primrec lazy :: "(mst \<Rightarrow> mst list) \<Rightarrow> nat \<Rightarrow> mst \<Rightarrow> mst list" where
  \<comment> \<open>zero or more rounds of \<open>f\<close>, fewer rounds preferred\<close>
  "lazy f 0 s = [s]"
| "lazy f (Suc n) s = s # concat (map (lazy f n) (filter (advances s) (f s)))"

definition close_group :: "nat \<Rightarrow> mst \<Rightarrow> mst \<Rightarrow> mst" where
  "close_group k s t =
     t\<lparr>caps := (k, take (length (rest s) - length (rest t)) (rest s)) # caps t\<rparr>"

definition at_boundary :: "mst \<Rightarrow> bool" where
  "at_boundary s =
     ((case seen s of [] \<Rightarrow> False | c # _ \<Rightarrow> isword c) \<noteq>
      (case rest s of [] \<Rightarrow> False | c # _ \<Rightarrow> isword c))"

definition at_end :: "mst \<Rightarrow> bool" where
  \<comment> \<open>\<open>$\<close> without MULTILINE: the end, or just before a final newline\<close>
  "at_end s = (rest s = [] \<or> rest s = [CHR 0x0A])"

fun ms :: "rx \<Rightarrow> mst \<Rightarrow> mst list" where
  "ms (Chr c) s = step (\<lambda>x. x = c) s"
| "ms Dot s = step (\<lambda>x. x \<noteq> CHR 0x0A) s"
| "ms Space s = step isspace s"
| "ms (NotChr c) s = step (\<lambda>x. x \<noteq> c) s"
| "ms Eps s = [s]"
| "ms (Seq a b) s = concat (map (ms b) (ms a s))"
| "ms (Alt a b) s = ms a s @ ms b s"
| "ms (Opt a) s = ms a s @ [s]"
| "ms (Star a) s = greedy (ms a) (length (rest s)) s"
| "ms (Plus a) s = concat (map (\<lambda>t. greedy (ms a) (length (rest t)) t) (ms a s))"
| "ms (LazyPlus a) s = concat (map (\<lambda>t. lazy (ms a) (length (rest t)) t) (ms a s))"
| "ms (Grp k a) s = map (close_group k s) (ms a s)"
| "ms WordB s = (if at_boundary s then [s] else [])"
| "ms Eol s = (if at_end s then [s] else [])"

fun seqs :: "rx list \<Rightarrow> rx" where
  "seqs [] = Eps"
| "seqs [r] = r"
| "seqs (r # rs) = Seq r (seqs rs)"

fun alts :: "rx list \<Rightarrow> rx" where
  "alts [] = Eps"
| "alts [r] = r"
| "alts (r # rs) = Alt r (alts rs)"

definition Str :: "string \<Rightarrow> rx" where
  "Str w = seqs (map Chr w)"

definition words :: "string list \<Rightarrow> rx" where
  \<comment> \<open>\<open>w1|w2|...\<close>\<close>
  "words ws = alts (map Str ws)"

definition first_match :: "rx \<Rightarrow> string \<Rightarrow> string \<Rightarrow> mst option" where
  "first_match r left right =
     (case ms r \<lparr>seen = left, rest = right, caps = []\<rparr> of [] \<Rightarrow> None | t # _ \<Rightarrow> Some t)"

definition re_match :: "rx \<Rightarrow> string \<Rightarrow> mst option" where
  "re_match r s = first_match r [] s"

fun search_from :: "rx \<Rightarrow> string \<Rightarrow> string \<Rightarrow> mst option" where
  "search_from r left [] = first_match r left []"
| "search_from r left (c # cs) =
     (case first_match r left (c # cs) of
        Some t \<Rightarrow> Some t
      | None \<Rightarrow> search_from r (c # left) cs)"

definition re_search :: "rx \<Rightarrow> string \<Rightarrow> mst option" where
  "re_search r s = search_from r [] s"

definition group :: "nat \<Rightarrow> mst \<Rightarrow> string" where
  \<comment> \<open>\<open>m.group(k)\<close>, for a group that takes part in every match of its pattern\<close>
  "group k m = (case map_of (caps m) k of Some g \<Rightarrow> g | None \<Rightarrow> [])"

text \<open>
  \<open>re.sub\<close> and \<open>re.findall\<close> go through the text from left to right, take the first match
  at the earliest position and go on behind it. \<open>pieces\<close> cuts the text into the characters
  outside the matches and the matches; its counter is the number of characters of the running
  match still to pass. The two patterns it is used with start with a literal bracket, so no
  match is empty; an empty match is passed over.
\<close>

datatype piece = Outside char | Hit mst

fun pieces :: "rx \<Rightarrow> nat \<Rightarrow> string \<Rightarrow> string \<Rightarrow> piece list" where
  "pieces r k left [] = []"
| "pieces r (Suc k) left (c # cs) = pieces r k (c # left) cs"
| "pieces r 0 left (c # cs) =
     (case first_match r left (c # cs) of
        None \<Rightarrow> Outside c # pieces r 0 (c # left) cs
      | Some t \<Rightarrow>
          (case length (c # cs) - length (rest t) of
             0 \<Rightarrow> Outside c # pieces r 0 (c # left) cs
           | Suc n \<Rightarrow> Hit t # pieces r n (c # left) cs))"

definition re_sub_empty :: "rx \<Rightarrow> string \<Rightarrow> string" where
  \<comment> \<open>\<open>re.sub(r, '', s)\<close>\<close>
  "re_sub_empty r s = concat (map (\<lambda>p. case p of Outside c \<Rightarrow> [c] | Hit _ \<Rightarrow> []) (pieces r 0 [] s))"

definition re_findall :: "rx \<Rightarrow> string \<Rightarrow> string list" where
  \<comment> \<open>\<open>re.findall(r, s)\<close> for a pattern with one group: the text of group 1 of every match\<close>
  "re_findall r s = concat (map (\<lambda>p. case p of Outside _ \<Rightarrow> [] | Hit t \<Rightarrow> [group 1 t]) (pieces r 0 [] s))"

section \<open>The host\<close>

text \<open>
  What the program asks of the operating system is a parameter of the model: a \<open>host\<close> gives,
  for every request, the answer of the system. A request that raises an exception answers with
  the exception's message. The answers are fixed for the time of one call. The questions to
  the file system (\<open>exists\<close>, \<open>glob\<close>, \<open>which\<close>, \<open>expanduser\<close>) are taken to answer
  without an exception.
\<close>

datatype completed =
    Completed int string string   \<comment> \<open>return code, stdout, stderr\<close>
  | TimeoutExpired string   \<comment> \<open>\<open>subprocess.TimeoutExpired\<close>, with its message\<close>
  | RunFailed string   \<comment> \<open>any other exception of \<open>subprocess.run\<close>\<close>

record host =
  home :: string   \<comment> \<open>\<open>os.path.expanduser("~")\<close>\<close>
  path_join :: "string \<Rightarrow> string \<Rightarrow> string"
  expanduser :: "string \<Rightarrow> string"
  path_exists :: "string \<Rightarrow> bool"
  basename :: "string \<Rightarrow> string"
  dirname :: "string \<Rightarrow> string"
  glob :: "string \<Rightarrow> string list"   \<comment> \<open>\<open>glob.glob(p, recursive=True)\<close>\<close>
  webbrowser_open :: "string \<Rightarrow> string option"   \<comment> \<open>\<open>Some e\<close>: raises \<open>e\<close>\<close>
  startfile :: "string \<Rightarrow> string option"
  which :: "string \<Rightarrow> string option"   \<comment> \<open>\<open>shutil.which\<close>\<close>
  walk_roots :: "string \<Rightarrow> string option"
    \<comment> \<open>the walk, at most two levels deep, through the three installation roots for a file
        named \<open>exe\<close> or \<open>exe.exe\<close>\<close>
  popen :: "string list \<Rightarrow> string option"
  subprocess_run :: "string list \<Rightarrow> completed"
  quote_plus :: "string \<Rightarrow> string"
  imagegrab :: bool   \<comment> \<open>\<open>from PIL import ImageGrab\<close> succeeds\<close>
  strftime :: string   \<comment> \<open>\<open>time.strftime("%Y%m%d_%H%M%S")\<close>\<close>
  grab_save :: "string \<Rightarrow> string option"   \<comment> \<open>\<open>ImageGrab.grab().save(path)\<close>\<close>

section \<open>IntentDetector\<close>

definition SITES :: "(string \<times> string) list" where
  "SITES = [
     (''youtube'', ''https://www.youtube.com''),
     (''yt'', ''https://www.youtube.com''),
     (''google'', ''https://www.google.com''),
     (''gmail'', ''https://mail.google.com''),
     (''github'', ''https://github.com''),
     (''reddit'', ''https://www.reddit.com''),
     (''twitter'', ''https://twitter.com''),
     (''x'', ''https://twitter.com''),
     (''facebook'', ''https://www.facebook.com''),
     (''instagram'', ''https://www.instagram.com''),
     (''linkedin'', ''https://www.linkedin.com''),
     (''twitch'', ''https://www.twitch.tv''),
     (''netflix'', ''https://www.netflix.com''),
     (''amazon'', ''https://www.amazon.com''),
     (''wikipedia'', ''https://www.wikipedia.org''),
     (''stackoverflow'', ''https://stackoverflow.com''),
     (''stack overflow'', ''https://stackoverflow.com''),
     (''whatsapp web'', ''https://web.whatsapp.com''),
     (''chatgpt'', ''https://chat.openai.com''),
     (''spotify'', ''https://open.spotify.com'')]"

definition APPS :: "string set" where
  "APPS = {
     ''chrome'', ''google chrome'', ''firefox'', ''edge'', ''brave'',
     ''notepad'', ''calculator'', ''calc'', ''explorer'', ''file explorer'',
     ''cmd'', ''terminal'', ''powershell'', ''spotify'',
     ''code'', ''vscode'', ''vs code'', ''visual studio code'',
     ''paint'', ''word'', ''excel'', ''powerpoint'',
     ''discord'', ''slack'', ''teams'', ''obs'', ''vlc'',
     ''task manager'', ''control panel'', ''settings'',
     ''snipping tool'', ''whatsapp''}"

text \<open>
  \<open>APPS\<close> is a Python set, and the order in which a loop goes through a set of strings is
  not fixed by the program. \<open>detect\<close> takes that order as its parameter \<open>apps\<close>, a list
  of the elements of \<open>APPS\<close>.
\<close>

definition apps_order :: "string list \<Rightarrow> bool" where
  "apps_order apps = (set apps = APPS \<and> distinct apps)"

definition FOLDERS :: "host \<Rightarrow> (string \<times> string) list" where
  "FOLDERS h = [
     (''desktop'', path_join h (home h) ''Desktop''),
     (''documents'', path_join h (home h) ''Documents''),
     (''downloads'', path_join h (home h) ''Downloads''),
     (''pictures'', path_join h (home h) ''Pictures''),
     (''music'', path_join h (home h) ''Music''),
     (''videos'', path_join h (home h) ''Videos''),
     (''home'', home h)]"

definition the_my :: "rx list" where
  \<comment> \<open>\<open>(?:the\s+)?(?:my\s+)?\<close>\<close>
  "the_my = [Opt (Seq (Str ''the'') (Plus Space)), Opt (Seq (Str ''my'') (Plus Space))]"

definition CLOSE_RE :: rx where
  \<comment> \<open>\<open>(?:close|kill|exit|quit|stop|terminate|end|cierra|cerrar)\s+(?:the\s+)?(?:my\s+)?(.+)\<close>\<close>
  "CLOSE_RE = seqs (
     [words [''close'', ''kill'', ''exit'', ''quit'', ''stop'', ''terminate'', ''end'',
             ''cierra'', ''cerrar''],
      Plus Space] @ the_my @ [Grp 1 (Plus Dot)])"

definition SHOT_RE :: rx where
  \<comment> \<open>\<open>\b(take|capture|grab|do)\b.*\b(screenshot|screen\s*shot|screen\s*cap|captura)\b\<close>\<close>
  "SHOT_RE = seqs
     [WordB, Grp 1 (words [''take'', ''capture'', ''grab'', ''do'']), WordB, Star Dot, WordB,
      Grp 2 (alts [Str ''screenshot'',
                   seqs [Str ''screen'', Star Space, Str ''shot''],
                   seqs [Str ''screen'', Star Space, Str ''cap''],
                   Str ''captura'']),
      WordB]"

definition SHOT_WORD_RE :: rx where
  \<comment> \<open>\<open>\bscreenshot\b\<close>\<close>
  "SHOT_WORD_RE = seqs [WordB, Str ''screenshot'', WordB]"

definition SEARCH_RE :: rx where
  \<comment> \<open>\<open>(?:google|search|search\s+for|look\s+up|busca|buscar)\s+(.+)\<close>\<close>
  "SEARCH_RE = seqs
     [alts [Str ''google'', Str ''search'',
            seqs [Str ''search'', Plus Space, Str ''for''],
            seqs [Str ''look'', Plus Space, Str ''up''],
            Str ''busca'', Str ''buscar''],
      Plus Space, Grp 1 (Plus Dot)]"

definition FIND_RE :: rx where
  \<comment> \<open>\<open>(?:find|search|look\s+for|busca)\s+(?:my\s+)?(?:files?\s+)?(?:called\s+|named\s+)?(.+?)(?:\s+files?)?(?:\s+on\s+.+)?$\<close>\<close>
  "FIND_RE = seqs
     [alts [Str ''find'', Str ''search'', seqs [Str ''look'', Plus Space, Str ''for''],
            Str ''busca''],
      Plus Space,
      Opt (Seq (Str ''my'') (Plus Space)),
      Opt (seqs [Str ''file'', Opt (Chr CHR ''s''), Plus Space]),
      Opt (Alt (Seq (Str ''called'') (Plus Space)) (Seq (Str ''named'') (Plus Space))),
      Grp 1 (LazyPlus Dot),
      Opt (seqs [Plus Space, Str ''file'', Opt (Chr CHR ''s'')]),
      Opt (seqs [Plus Space, Str ''on'', Plus Space, Plus Dot]),
      Eol]"

definition OPEN_WORD_RE :: rx where
  \<comment> \<open>\<open>\b(open|launch|go|navigate)\b\<close>\<close>
  "OPEN_WORD_RE = seqs [WordB, Grp 1 (words [''open'', ''launch'', ''go'', ''navigate'']), WordB]"

definition EXT_RE :: rx where
  \<comment> \<open>\<open>\b(pdf|txt|doc|xls|ppt|jpg|png|mp3|mp4|zip|exe)\b\<close>\<close>
  "EXT_RE = seqs
     [WordB,
      Grp 1 (words [''pdf'', ''txt'', ''doc'', ''xls'', ''ppt'', ''jpg'', ''png'', ''mp3'',
                    ''mp4'', ''zip'', ''exe'']),
      WordB]"

definition OPEN_RE :: rx where
  \<comment> \<open>\<open>(?:open|launch|start|run|go\s+to|navigate\s+to|abre|abrir)\s+(?:the\s+)?(?:my\s+)?(.+)\<close>\<close>
  "OPEN_RE = seqs (
     [alts [Str ''open'', Str ''launch'', Str ''start'', Str ''run'',
            seqs [Str ''go'', Plus Space, Str ''to''],
            seqs [Str ''navigate'', Plus Space, Str ''to''],
            Str ''abre'', Str ''abrir''],
      Plus Space] @ the_my @ [Grp 1 (Plus Dot)])"

definition URL_RE :: rx where
  \<comment> \<open>\<open>https?://\<close>\<close>
  "URL_RE = seqs [Str ''http'', Opt (Chr CHR ''s''), Str ''://'']"

definition WWW_RE :: rx where
  \<comment> \<open>\<open>www\.\<close>\<close>
  "WWW_RE = Str ''www.''"

type_synonym action = "string \<times> string"

text \<open>
  \<open>detect\<close> is a cascade of five rules; a rule that applies returns at once. Each rule is
  a function to \<open>action list option\<close>, \<open>None\<close> where the program goes on to the next rule.
\<close>

definition known_app :: "string list \<Rightarrow> string \<Rightarrow> string option" where
  \<comment> \<open>the first \<open>app_name\<close> with \<open>app_name in target or target in app_name\<close>\<close>
  "known_app apps target =
     find (\<lambda>app_name. contains target app_name \<or> contains app_name target) apps"

definition close_rule :: "string list \<Rightarrow> string \<Rightarrow> action list option" where
  "close_rule apps lower_text =
     (case re_match CLOSE_RE lower_text of
        None \<Rightarrow> None
      | Some m \<Rightarrow>
          (let target = rstrip_chars ''.'' (strip (group 1 m)) in
           case known_app apps target of
             Some app_name \<Rightarrow> Some [(''CLOSE_APP'', app_name)]
           | None \<Rightarrow> Some [(''CLOSE_APP'', target)]))"

definition screenshot_rule :: "string \<Rightarrow> action list option" where
  "screenshot_rule lower_text =
     (if re_search SHOT_RE lower_text \<noteq> None \<or> re_search SHOT_WORD_RE lower_text \<noteq> None
      then Some [(''SCREENSHOT'', [])] else None)"

definition search_rule :: "string \<Rightarrow> action list option" where
  "search_rule lower_text =
     (case re_match SEARCH_RE lower_text of
        None \<Rightarrow> None
      | Some m \<Rightarrow> Some [(''SEARCH_WEB'', strip (group 1 m))])"

definition find_rule :: "string \<Rightarrow> action list option" where
  "find_rule lower_text =
     (case re_match FIND_RE lower_text of
        None \<Rightarrow> None
      | Some m \<Rightarrow>
          if re_search OPEN_WORD_RE lower_text \<noteq> None then None
          else
            (let pattern = strip (group 1 m) in
             if (\<exists>c \<in> set ''*.?''. c \<in> set pattern) \<or> re_search EXT_RE pattern \<noteq> None
             then Some [(''FIND_FILE'',
                    if CHR ''*'' \<notin> set pattern \<and> CHR ''.'' \<notin> set pattern
                    then ''*.'' @ pattern else pattern)]
             else None))"

definition open_rule :: "host \<Rightarrow> string list \<Rightarrow> string \<Rightarrow> action list option" where
  "open_rule h apps lower_text =
     (case re_match OPEN_RE lower_text of
        None \<Rightarrow> None
      | Some m \<Rightarrow>
          (let target = rstrip_chars ''.'' (strip (group 1 m)) in
           if re_match URL_RE target \<noteq> None \<or> re_match WWW_RE target \<noteq> None
           then Some [(''OPEN_URL'', target)]
           else case find (\<lambda>(site_name, site_url). contains target site_name) SITES of
             Some (site_name, site_url) \<Rightarrow> Some [(''OPEN_URL'', site_url)]
           | None \<Rightarrow>
           (case find (\<lambda>(folder_name, folder_path). contains target folder_name) (FOLDERS h) of
             Some (folder_name, folder_path) \<Rightarrow> Some [(''OPEN_FOLDER'', folder_path)]
           | None \<Rightarrow>
           if CHR 0x5C \<in> set target \<or> CHR ''/'' \<in> set target \<or> CHR '':'' \<in> set target
           then (let expanded = expanduser h target in
                 if path_exists h expanded then Some [(''OPEN_FOLDER'', expanded)]
                 else Some [(''OPEN_APP'', target)])
           else case known_app apps target of
             Some app_name \<Rightarrow> Some [(''OPEN_APP'', app_name)]
           | None \<Rightarrow> Some [(''OPEN_APP'', target)])))"

definition detect :: "host \<Rightarrow> string list \<Rightarrow> string \<Rightarrow> action list" where
  "detect h apps text =
     (let lower_text = strip (lower text) in
      case close_rule apps lower_text of Some actions \<Rightarrow> actions | None \<Rightarrow>
      case screenshot_rule lower_text of Some actions \<Rightarrow> actions | None \<Rightarrow>
      case search_rule lower_text of Some actions \<Rightarrow> actions | None \<Rightarrow>
      case find_rule lower_text of Some actions \<Rightarrow> actions | None \<Rightarrow>
      case open_rule h apps lower_text of Some actions \<Rightarrow> actions | None \<Rightarrow> [])"

section \<open>OllamaChat\<close>

datatype role = System | User | Assistant

record message =
  role :: role
  content :: string

record settings =
  ollama_url :: string
  model :: string

record chat =
  settings :: settings
  messages :: "message list"

text \<open>
  The text of \<open>SYSTEM_PROMPT\<close> has characters outside Latin-1; the constructor and
  \<open>clear\<close> take it as their parameter \<open>system_prompt\<close>.
\<close>

definition init :: "string \<Rightarrow> settings \<Rightarrow> chat" where
  "init system_prompt st =
     \<lparr>settings = st, messages = [\<lparr>role = System, content = system_prompt\<rparr>]\<rparr>"

definition clear :: "string \<Rightarrow> chat \<Rightarrow> chat" where
  "clear system_prompt c = c\<lparr>messages := [\<lparr>role = System, content = system_prompt\<rparr>]\<rparr>"

text \<open>
  The backend answers three requests: the liveness probe of \<open>OllamaManager.is_running\<close>,
  \<open>OllamaManager.list_models\<close> (both catch their own exceptions) and the chat request, which
  raises or returns a response. The body of a streamed response arrives line by line; with
  every line that arrives, the loop first reads the cancellation event.
\<close>

datatype net_error =
    ConnectionError
  | Timeout
  | OtherError string   \<comment> \<open>any other exception, with its message\<close>

record json =
  err :: "string option"   \<comment> \<open>\<open>data['error']\<close> when \<open>"error" in data\<close>\<close>
  delta :: string   \<comment> \<open>\<open>data.get("message", {}).get("content", "")\<close>\<close>
  fin :: bool   \<comment> \<open>\<open>data.get("done")\<close> is true\<close>

datatype line =
    EmptyLine   \<comment> \<open>\<open>not line\<close>\<close>
  | NotJson   \<comment> \<open>\<open>json.loads\<close> raises \<open>JSONDecodeError\<close>\<close>
  | Json json
  | BadJson string   \<comment> \<open>JSON whose fields cannot be read: an exception, its message\<close>

datatype item =
    Line bool line   \<comment> \<open>a line, and \<open>cancel.is_set()\<close> as read when it has arrived\<close>
  | Broken net_error   \<comment> \<open>\<open>iter_lines\<close> raises\<close>

record response =
  status_code :: nat
  body :: string   \<comment> \<open>\<open>resp.text\<close>\<close>
  lines :: "item list"   \<comment> \<open>\<open>resp.iter_lines()\<close>\<close>

record backend =
  is_running :: "string \<Rightarrow> bool"
  list_models :: "string \<Rightarrow> string list"
  post :: "string \<Rightarrow> string \<Rightarrow> message list \<Rightarrow> net_error + response"
    \<comment> \<open>the URL, the model and the messages of the request\<close>

text \<open>The messages that \<open>on_error\<close> is called with.\<close>

datatype error_text =
    NotConfigured
  | CantReach string   \<comment> \<open>the base URL\<close>
  | ModelNotFound string   \<comment> \<open>the model\<close>
  | Http nat string   \<comment> \<open>the status and the first 300 characters of the body\<close>
  | BackendError string   \<comment> \<open>the record's \<open>error\<close>\<close>
  | LostConnection
  | TimedOut
  | Unexpected string

text \<open>The calls of the four callbacks, in the order in which \<open>stream\<close> makes them.\<close>

datatype callback =
    OnChunk string
  | OnDone
  | OnError error_text
  | OnModelNotFound "string list"

definition raised :: "net_error \<Rightarrow> callback" where
  \<comment> \<open>the three \<open>except\<close> clauses of \<open>stream\<close>\<close>
  "raised e = OnError (case e of
       ConnectionError \<Rightarrow> LostConnection
     | Timeout \<Rightarrow> TimedOut
     | OtherError m \<Rightarrow> Unexpected m)"

text \<open>
  The loop over the lines, with the chunks collected so far and the callbacks made so far. The
  first component of the result is \<open>True\<close> when the loop is left by \<open>break\<close> or by the end
  of the lines, so that \<open>stream\<close> goes on behind it, and \<open>False\<close> when \<open>stream\<close> has returned
  from inside.
\<close>

fun read_lines :: "item list \<Rightarrow> string list \<Rightarrow> callback list \<Rightarrow> bool \<times> string list \<times> callback list" where
  "read_lines [] full calls = (True, full, calls)"
| "read_lines (Broken e # later) full calls = (False, full, calls @ [raised e])"
| "read_lines (Line cancel l # later) full calls =
     (if cancel then (True, full, calls)
      else case l of
        EmptyLine \<Rightarrow> read_lines later full calls
      | NotJson \<Rightarrow> read_lines later full calls
      | BadJson m \<Rightarrow> (False, full, calls @ [raised (OtherError m)])
      | Json data \<Rightarrow>
          (case err data of
             Some e \<Rightarrow> (False, full, calls @ [OnError (BackendError e)])
           | None \<Rightarrow>
               (let full' = (if delta data \<noteq> [] then full @ [delta data] else full);
                    calls' = (if delta data \<noteq> [] then calls @ [OnChunk (delta data)] else calls)
                in if fin data then (True, full', calls')
                   else read_lines later full' calls')))"

definition stream :: "backend \<Rightarrow> chat \<Rightarrow> string \<Rightarrow> bool \<Rightarrow> chat \<times> callback list" where
  \<comment> \<open>\<open>handler\<close>: an \<open>on_model_not_found\<close> was given\<close>
  "stream b c user_text handler =
     (let c1 = c\<lparr>messages := messages c @ [\<lparr>role = User, content = user_text\<rparr>]\<rparr>;
          base = rstrip_chars ''/'' (ollama_url (settings c));
          model = model (settings c)
      in
      if base = [] \<or> model = [] then (c1, [OnError NotConfigured])
      else if \<not> is_running b base then (c1, [OnError (CantReach base)])
      else case post b (base @ ''/api/chat'') model (messages c1) of
        Inl e \<Rightarrow> (c1, [raised e])
      | Inr resp \<Rightarrow>
          if status_code resp = 404 then
            (let available = list_models b base in
             if available \<noteq> [] \<and> handler then
               ((if messages c1 \<noteq> [] \<and> role (last (messages c1)) = User
                 then c1\<lparr>messages := butlast (messages c1)\<rparr> else c1),
                [OnModelNotFound available])
             else (c1, [OnError (ModelNotFound model)]))
          else if status_code resp \<noteq> 200 then
            (c1, [OnError (Http (status_code resp) (take 300 (body resp)))])
          else
            (case read_lines (lines resp) [] [] of
               (False, full, calls) \<Rightarrow> (c1, calls)
             | (True, full, calls) \<Rightarrow>
                 (let text = concat full in
                  ((if text \<noteq> [] then
                      c1\<lparr>messages := messages c1 @ [\<lparr>role = Assistant, content = text\<rparr>]\<rparr>
                    else c1),
                   calls @ [OnDone]))))"

section \<open>ActionExecutor\<close>

text \<open>
  A handler returns the calls it has made to the host, in order, and either the message for
  the user or, as \<open>Inl\<close>, the message of an exception that leaves the handler.
\<close>

datatype effect =
    Browse string   \<comment> \<open>\<open>webbrowser.open\<close>\<close>
  | StartFile string   \<comment> \<open>\<open>os.startfile\<close>\<close>
  | Popen "string list"   \<comment> \<open>\<open>subprocess.Popen\<close>\<close>
  | Subprocess "string list"   \<comment> \<open>\<open>subprocess.run\<close>\<close>
  | Grab string   \<comment> \<open>\<open>ImageGrab.grab\<close> and \<open>img.save\<close>\<close>

datatype found_line =
    Header nat   \<comment> \<open>\<open>Found n file(s):\<close>\<close>
  | Entry string string   \<comment> \<open>the name of a file and its folder\<close>
  | AndMore nat   \<comment> \<open>\<open>... and n more.\<close>\<close>

datatype reply =
    OpenedUrl string
  | OpenedApp string
  | CouldntFind string
  | Closed string
  | NotRunning string
  | Searched string
  | FolderNotFound string
  | OpenedFolder string
  | NoFiles string
  | Found "found_line list"
  | Blocked string
  | CommandResult string
  | NoOutput
  | CommandTimedOut
  | CommandError string
  | ScreenshotSaved string
  | NoPillow
  | ScreenshotFailed string
  | Typed
  | TypeFailed string
  | UnknownAction string
  | ActionFailed string

type_synonym outcome = "effect list \<times> (string + reply)"

definition APP_MAP :: "(string \<times> string) list" where
  "APP_MAP = [
     (''chrome'', ''chrome''),
     (''google chrome'', ''chrome''),
     (''firefox'', ''firefox''),
     (''edge'', ''msedge''),
     (''microsoft edge'', ''msedge''),
     (''notepad'', ''notepad''),
     (''calculator'', ''calc''),
     (''calc'', ''calc''),
     (''explorer'', ''explorer''),
     (''file explorer'', ''explorer''),
     (''cmd'', ''cmd''),
     (''terminal'', ''wt''),
     (''windows terminal'', ''wt''),
     (''powershell'', ''powershell''),
     (''spotify'', ''spotify''),
     (''whatsapp'', ''whatsapp:''),
     (''code'', ''code''),
     (''vscode'', ''code''),
     (''vs code'', ''code''),
     (''paint'', ''mspaint''),
     (''word'', ''winword''),
     (''excel'', ''excel''),
     (''powerpoint'', ''powerpnt''),
     (''discord'', ''discord''),
     (''slack'', ''slack''),
     (''teams'', ''teams''),
     (''obs'', ''obs64''),
     (''vlc'', ''vlc''),
     (''task manager'', ''taskmgr''),
     (''taskmgr'', ''taskmgr''),
     (''control panel'', ''control''),
     (''settings'', ''ms-settings:''),
     (''snipping tool'', ''snippingtool'')]"

definition KILL_MAP :: "(string \<times> string list) list" where
  "KILL_MAP = [
     (''chrome'', [''chrome'', ''chrome.exe'']),
     (''google chrome'', [''chrome'', ''chrome.exe'']),
     (''firefox'', [''firefox'', ''firefox.exe'']),
     (''edge'', [''msedge'', ''msedge.exe'']),
     (''microsoft edge'', [''msedge'', ''msedge.exe'']),
     (''notepad'', [''notepad'', ''notepad.exe'']),
     (''spotify'', [''spotify'', ''spotify.exe'']),
     (''whatsapp'', [''WhatsApp'', ''WhatsApp.exe'']),
     (''discord'', [''discord'', ''discord.exe'', ''update.exe'']),
     (''slack'', [''slack'', ''slack.exe'']),
     (''teams'', [''teams'', ''teams.exe'', ''ms-teams.exe'']),
     (''code'', [''code'', ''code.exe'']),
     (''vscode'', [''code'', ''code.exe'']),
     (''vs code'', [''code'', ''code.exe'']),
     (''word'', [''winword'', ''winword.exe'']),
     (''excel'', [''excel'', ''excel.exe'']),
     (''powerpoint'', [''powerpnt'', ''powerpnt.exe'']),
     (''vlc'', [''vlc'', ''vlc.exe'']),
     (''obs'', [''obs64'', ''obs64.exe'']),
     (''paint'', [''mspaint'', ''mspaint.exe'']),
     (''calculator'', [''calculatorapp'', ''calc.exe'', ''calculator.exe'']),
     (''calc'', [''calculatorapp'', ''calc.exe'']),
     (''terminal'', [''windowsterminal'', ''wt.exe'']),
     (''cmd'', [''cmd'', ''cmd.exe'']),
     (''powershell'', [''powershell'', ''powershell.exe'']),
     (''explorer'', [''explorer'', ''explorer.exe'']),
     (''task manager'', [''taskmgr'', ''taskmgr.exe''])]"

definition open_url :: "host \<Rightarrow> string \<Rightarrow> outcome" where
  "open_url h url =
     (let url = (if startswith url ''http://'' \<or> startswith url ''https://'' then url
                 else ''https://'' @ url)
      in ([Browse url],
          case webbrowser_open h url of Some e \<Rightarrow> Inl e | None \<Rightarrow> Inr (OpenedUrl url)))"

definition open_app :: "host \<Rightarrow> string \<Rightarrow> outcome" where
  "open_app h name =
     (let name_lower = strip (lower name);
          exe = (case map_of APP_MAP name_lower of Some e \<Rightarrow> e | None \<Rightarrow> name_lower)
      in
      if startswith exe ''ms-'' then
        ([StartFile exe], case startfile h exe of Some e \<Rightarrow> Inl e | None \<Rightarrow> Inr (OpenedApp name))
      else
        (let found = (case which h exe of
                        Some p \<Rightarrow> Some p
                      | None \<Rightarrow>
                          (case which h (exe @ ''.exe'') of
                             Some p \<Rightarrow> Some p
                           | None \<Rightarrow> walk_roots h exe))
         in case found of
              Some p \<Rightarrow>
                ([Popen [p]], case popen h [p] of Some e \<Rightarrow> Inl e | None \<Rightarrow> Inr (OpenedApp name))
            | None \<Rightarrow>
                ([StartFile exe],
                 case startfile h exe of
                   Some e \<Rightarrow> Inr (CouldntFind name)
                 | None \<Rightarrow> Inr (OpenedApp name))))"

definition taskkill :: "string \<Rightarrow> string list" where
  "taskkill proc =
     [''taskkill'', ''/f'', ''/im'', if endswith proc ''.exe'' then proc else proc @ ''.exe'']"

fun kill_first :: "host \<Rightarrow> string list \<Rightarrow> effect list \<times> bool" where
  \<comment> \<open>the loop of \<open>_close_app\<close>: the calls made, and \<open>killed\<close>\<close>
  "kill_first h [] = ([], False)"
| "kill_first h (proc # procs) =
     (case subprocess_run h (taskkill proc) of
        Completed returncode out errs \<Rightarrow>
          if returncode = 0 then ([Subprocess (taskkill proc)], True)
          else (Subprocess (taskkill proc) # fst (kill_first h procs), snd (kill_first h procs))
      | TimeoutExpired m \<Rightarrow>
          (Subprocess (taskkill proc) # fst (kill_first h procs), snd (kill_first h procs))
      | RunFailed m \<Rightarrow>
          (Subprocess (taskkill proc) # fst (kill_first h procs), snd (kill_first h procs)))"

definition close_app :: "host \<Rightarrow> string \<Rightarrow> outcome" where
  "close_app h name =
     (let name_lower = strip (lower name);
          process_names = (case map_of KILL_MAP name_lower of
                             Some ps \<Rightarrow> ps
                           | None \<Rightarrow> [name_lower, name_lower @ ''.exe''])
      in case kill_first h process_names of
           (fx, killed) \<Rightarrow> (fx, Inr (if killed then Closed name else NotRunning name)))"

definition search_web :: "host \<Rightarrow> string \<Rightarrow> outcome" where
  "search_web h query =
     (let url = ''https://www.google.com/search?q='' @ quote_plus h query
      in ([Browse url],
          case webbrowser_open h url of Some e \<Rightarrow> Inl e | None \<Rightarrow> Inr (Searched query)))"

definition open_folder :: "host \<Rightarrow> string \<Rightarrow> outcome" where
  "open_folder h path =
     (let path = expanduser h (replace_char CHR ''/'' [CHR 0x5C] path)
      in if \<not> path_exists h path then ([], Inr (FolderNotFound path))
         else ([StartFile path],
               case startfile h path of Some e \<Rightarrow> Inl e | None \<Rightarrow> Inr (OpenedFolder path)))"

definition search_dirs :: "host \<Rightarrow> string list" where
  "search_dirs h =
     [path_join h (home h) ''Desktop'',
      path_join h (home h) ''Documents'',
      path_join h (home h) ''Downloads'']"

fun collect :: "host \<Rightarrow> string \<Rightarrow> string list \<Rightarrow> string list \<Rightarrow> string list" where
  \<comment> \<open>the loop of \<open>_find_file\<close> over the directories still to visit, with \<open>results\<close>\<close>
  "collect h pattern [] results = results"
| "collect h pattern (d # ds) results =
     (let results =
            (if path_exists h d
             then results @ take 20 (glob h (path_join h (path_join h d ''**'') pattern))
             else results)
      in if length results \<ge> 30 then results else collect h pattern ds results)"

definition find_file :: "host \<Rightarrow> string \<Rightarrow> outcome" where
  "find_file h pattern =
     (let results = collect h pattern (search_dirs h) [] in
      if results = [] then ([], Inr (NoFiles pattern))
      else
        (let display = take 10 results;
             text = Header (length results) # map (\<lambda>f. Entry (basename h f) (dirname h f)) display;
             text = (if length results > 10 then text @ [AndMore (length results - 10)] else text)
         in ([], Inr (Found text))))"

definition dangerous :: "string list" where
  "dangerous = [''format'', ''del /'', ''rm -rf'', ''rmdir'', ''rd /s'', '':(){'', ''shutdown'',
                ''restart'']"

definition system_cmd :: "host \<Rightarrow> string \<Rightarrow> outcome" where
  "system_cmd h command =
     (let cmd_lower = lower command in
      case find (\<lambda>d. contains cmd_lower d) dangerous of
        Some d \<Rightarrow> ([], Inr (Blocked command))
      | None \<Rightarrow>
          ([Subprocess [''powershell'', ''-Command'', command]],
           case subprocess_run h [''powershell'', ''-Command'', command] of
             Completed returncode out errs \<Rightarrow>
               (let output = strip (if out \<noteq> [] then out else if errs \<noteq> [] then errs else []);
                    output = (if length output > 600
                              then take 600 output @ [CHR 0x0A] @ ''... (truncated)''
                              else output)
                in Inr (if output \<noteq> [] then CommandResult output else NoOutput))
           | TimeoutExpired m \<Rightarrow> Inr CommandTimedOut
           | RunFailed m \<Rightarrow> Inr (CommandError m)))"

definition screenshot :: "host \<Rightarrow> outcome" where
  "screenshot h =
     (if \<not> imagegrab h then ([], Inr NoPillow)
      else
        (let desktop = path_join h (home h) ''Desktop'';
             path = path_join h desktop (''clippy_screenshot_'' @ strftime h @ ''.png'')
         in ([Grab path],
             case grab_save h path of
               Some e \<Rightarrow> Inr (ScreenshotFailed e)
             | None \<Rightarrow> Inr (ScreenshotSaved path))))"

definition type_text :: "host \<Rightarrow> string \<Rightarrow> outcome" where
  "type_text h text =
     (let ps_text = replace_char (CHR 0x27) [CHR 0x27, CHR 0x27] text;
          argv = [''powershell'', ''-Command'',
                  ''Add-Type -AssemblyName System.Windows.Forms; '' @
                  ''[System.Windows.Forms.SendKeys]::SendWait('' @ [CHR 0x27] @ ps_text @
                  [CHR 0x27] @ '')'']
      in ([Subprocess argv],
          case subprocess_run h argv of
            Completed returncode out errs \<Rightarrow> Inr Typed
          | TimeoutExpired m \<Rightarrow> Inr (TypeFailed m)
          | RunFailed m \<Rightarrow> Inr (TypeFailed m)))"

definition dispatch :: "host \<Rightarrow> string \<Rightarrow> string \<Rightarrow> outcome" where
  \<comment> \<open>the body of the \<open>try\<close> of \<open>run\<close>\<close>
  "dispatch h cmd arg =
     (if cmd = ''OPEN_URL'' then open_url h arg
      else if cmd = ''OPEN_APP'' then open_app h arg
      else if cmd = ''SEARCH_WEB'' then search_web h arg
      else if cmd = ''OPEN_FOLDER'' then open_folder h arg
      else if cmd = ''FIND_FILE'' then find_file h arg
      else if cmd = ''SYSTEM_CMD'' then system_cmd h arg
      else if cmd = ''CLOSE_APP'' then close_app h arg
      else if cmd = ''SCREENSHOT'' then screenshot h
      else if cmd = ''TYPE_TEXT'' then type_text h arg
      else ([], Inr (UnknownAction cmd)))"

definition run :: "host \<Rightarrow> string \<Rightarrow> string \<Rightarrow> outcome" where
  "run h cmd arg =
     (case dispatch h cmd arg of
        (fx, Inr r) \<Rightarrow> (fx, Inr r)
      | (fx, Inl e) \<Rightarrow> (fx, Inr (ActionFailed e)))"

section \<open>ChatWindow\<close>

text \<open>
  The paperclip glyph U+1F4CE in front of a bot bubble lies outside Latin-1. The character of
  code 1 stands for it: like the glyph it is one code point, no space, no word character and
  without case.
\<close>

definition PAPERCLIP :: char where
  "PAPERCLIP = CHR 0x01"

definition BOT_PREFIX :: string where
  "BOT_PREFIX = [PAPERCLIP, CHR '' '', CHR '' '']"

definition TAG_RE :: rx where
  \<comment> \<open>\<open>\[ACTION:[^\]]*\]\<close>\<close>
  "TAG_RE = seqs [Str ''[ACTION:'', Star (NotChr CHR '']''), Chr CHR '']'']"

definition TAG_BODY_RE :: rx where
  \<comment> \<open>\<open>\[ACTION:([^\]]+)\]\<close>\<close>
  "TAG_BODY_RE = seqs [Str ''[ACTION:'', Grp 1 (Plus (NotChr CHR '']'')), Chr CHR '']'']"

text \<open>The threads that the window starts.\<close>

datatype job =
    RunIntents "action list"   \<comment> \<open>\<open>_run_intents\<close> over the detected intents\<close>
  | Stream string   \<comment> \<open>\<open>chat.stream\<close> with the text\<close>
  | ExecuteActions "string list"   \<comment> \<open>\<open>_execute_actions\<close> with the bodies of the tags\<close>

record window =
  top :: bool   \<comment> \<open>the window is open\<close>
  is_streaming :: bool
  intents_fired :: bool   \<comment> \<open>\<open>_intents_fired\<close>\<close>
  cancel_event :: bool
  bubbles :: "string list"   \<comment> \<open>the texts of the labels, oldest first\<close>
  bot_label :: "nat option"   \<comment> \<open>\<open>_bot_label\<close>: the place of its label in \<open>bubbles\<close>\<close>

definition add_bubble :: "string \<Rightarrow> bool \<Rightarrow> window \<Rightarrow> window" where
  \<comment> \<open>\<open>_add_bubble(text, is_user)\<close> for a user bubble and a bot bubble, the two that \<open>_send\<close>
      makes; the new label is the last of \<open>bubbles\<close>\<close>
  "add_bubble text is_user w =
     w\<lparr>bubbles := bubbles w @ [(if \<not> is_user then BOT_PREFIX else []) @ text]\<rparr>"

definition send :: "host \<Rightarrow> string list \<Rightarrow> window \<Rightarrow> string \<Rightarrow> window \<times> job list" where
  \<comment> \<open>\<open>entry\<close>: the text of the entry field\<close>
  "send h apps w entry =
     (if \<not> top w \<or> is_streaming w then (w, [])
      else
        (let text = strip entry in
         if text = [] then (w, [])
         else
           (let w = add_bubble text True w;
                intents = detect h apps text;
                w = w\<lparr>intents_fired := (intents \<noteq> [])\<rparr>;
                started = (if intents \<noteq> [] then [RunIntents intents] else []);
                w = add_bubble [] False w;
                w = w\<lparr>bot_label := Some (length (bubbles w) - 1)\<rparr>;
                w = w\<lparr>is_streaming := True\<rparr>;
                w = w\<lparr>cancel_event := False\<rparr>
            in (w, started @ [Stream text]))))"

definition run_intents :: "host \<Rightarrow> action list \<Rightarrow> outcome list" where
  "run_intents h intents = map (\<lambda>(cmd, arg). run h cmd arg) intents"

text \<open>
  A label that is gone makes \<open>cget\<close> raise; the callback ends there and has changed nothing.
\<close>

definition append_chunk :: "window \<Rightarrow> string \<Rightarrow> window" where
  "append_chunk w text =
     (case bot_label w of
        None \<Rightarrow> w
      | Some i \<Rightarrow>
          if i < length (bubbles w) then w\<lparr>bubbles := (bubbles w)[i := bubbles w ! i @ text]\<rparr>
          else w)"

definition finish :: "window \<Rightarrow> window" where
  "finish w = w\<lparr>is_streaming := False, bot_label := None, intents_fired := False\<rparr>"

text \<open>
  \<open>_clear\<close>. It does not wait for the thread of a running request and leaves
  \<open>_intents_fired\<close> as it is. The text of \<open>GREETING\<close> has characters outside Latin-1 and is
  the parameter \<open>greeting\<close>.
\<close>

definition window_clear :: "string \<Rightarrow> string \<Rightarrow> chat \<Rightarrow> window \<Rightarrow> chat \<times> window" where
  "window_clear system_prompt greeting c w =
     (let w = (if is_streaming w then w\<lparr>cancel_event := True\<rparr> else w);
          c = clear system_prompt c;
          w = w\<lparr>bot_label := None\<rparr>;
          w = w\<lparr>is_streaming := False\<rparr>
      in if top w then (c, add_bubble greeting False (w\<lparr>bubbles := []\<rparr>)) else (c, w))"

definition finish_and_run_actions :: "window \<Rightarrow> window \<times> job list" where
  "finish_and_run_actions w =
     (case bot_label w of
        None \<Rightarrow> (finish w, [])
      | Some i \<Rightarrow>
          if i < length (bubbles w) then
            (let full_text = bubbles w ! i;
                 full_text = (if startswith full_text BOT_PREFIX then drop 3 full_text
                              else full_text);
                 clean = strip (re_sub_empty TAG_RE full_text);
                 w1 = (if clean \<noteq> [] then w\<lparr>bubbles := (bubbles w)[i := BOT_PREFIX @ clean]\<rparr>
                       else w);
                 started =
                   (if \<not> intents_fired w then
                      (let actions = re_findall TAG_BODY_RE full_text in
                       if actions \<noteq> [] then [ExecuteActions actions] else [])
                    else [])
             in (finish w1, started))
          else (w, []))"

definition split1 :: "char \<Rightarrow> string \<Rightarrow> string \<times> string option" where
  \<comment> \<open>\<open>s.split(c, 1)\<close>: one part, or the part before the first \<open>c\<close> and the part behind it\<close>
  "split1 c s =
     (case dropWhile (\<lambda>x. x \<noteq> c) s of
        [] \<Rightarrow> (s, None)
      | _ # behind \<Rightarrow> (takeWhile (\<lambda>x. x \<noteq> c) s, Some behind))"

definition parse_action :: "string \<Rightarrow> action" where
  \<comment> \<open>\<open>cmd\<close> and \<open>arg\<close> of \<open>_execute_actions\<close>\<close>
  "parse_action action_str =
     (case split1 CHR ''|'' action_str of
        (part0, None) \<Rightarrow> (upper (strip part0), [])
      | (part0, Some part1) \<Rightarrow> (upper (strip part0), strip part1))"

definition execute_actions :: "host \<Rightarrow> string list \<Rightarrow> outcome list" where
  "execute_actions h actions =
     map (\<lambda>action_str. case parse_action action_str of (cmd, arg) \<Rightarrow> run h cmd arg) actions"

section \<open>Notions for the statements, and concrete inputs\<close>

text \<open>
  What one directory contributes to the results of \<open>_find_file\<close>: nothing when it does not
  exist, else the first 20 matches of the pattern below it.
\<close>

definition taken :: "host \<Rightarrow> string \<Rightarrow> string \<Rightarrow> string list" where
  "taken h pattern d =
     (if path_exists h d then take 20 (glob h (path_join h (path_join h d ''**'') pattern))
      else [])"

text \<open>
  A line after which the loop of \<open>stream\<close> takes the next one: it was read with the
  cancellation event clear, it carries no error, it is not the last, and reading it raises
  nothing. \<open>chunks\<close> are the non-empty pieces of text of such lines.
\<close>

fun goes_on :: "item \<Rightarrow> bool" where
  "goes_on (Broken e) = False"
| "goes_on (Line cancel EmptyLine) = (\<not> cancel)"
| "goes_on (Line cancel NotJson) = (\<not> cancel)"
| "goes_on (Line cancel (BadJson m)) = False"
| "goes_on (Line cancel (Json data)) = (\<not> cancel \<and> err data = None \<and> \<not> fin data)"

fun chunk :: "item \<Rightarrow> string list" where
  "chunk (Line cancel (Json data)) = (if delta data \<noteq> [] then [delta data] else [])"
| "chunk _ = []"

definition chunks :: "item list \<Rightarrow> string list" where
  "chunks items = concat (map chunk items)"

definition example_host :: host where
  "example_host =
     \<lparr>home = ''C:/Users/me'',
      path_join = (\<lambda>a b. a @ ''/'' @ b),
      expanduser = (\<lambda>p. p),
      path_exists = (\<lambda>p. True),
      basename = (\<lambda>p. p),
      dirname = (\<lambda>p. []),
      glob = (\<lambda>p. []),
      webbrowser_open = (\<lambda>u. None),
      startfile = (\<lambda>p. None),
      which = (\<lambda>e. None),
      walk_roots = (\<lambda>e. None),
      popen = (\<lambda>a. None),
      subprocess_run = (\<lambda>a. Completed 0 [] []),
      quote_plus = (\<lambda>q. q),
      imagegrab = True,
      strftime = ''20260101_000000'',
      grab_save = (\<lambda>p. None)\<rparr>"

definition failing_host :: host where
  \<comment> \<open>a host without a browser\<close>
  "failing_host = example_host\<lparr>webbrowser_open := (\<lambda>u. Some ''no browser'')\<rparr>"

definition crowded_host :: host where
  \<comment> \<open>20 matches on the desktop, 9 in the documents, 20 in the downloads\<close>
  "crowded_host = example_host
     \<lparr>glob := (\<lambda>p. if p = ''C:/Users/me/Documents/**/*.txt''
                   then replicate 9 ''a.txt'' else replicate 20 ''a.txt'')\<rparr>"

definition example_apps :: "string list" where
  "example_apps = [
     ''chrome'', ''google chrome'', ''firefox'', ''edge'', ''brave'',
     ''notepad'', ''calculator'', ''calc'', ''explorer'', ''file explorer'',
     ''cmd'', ''terminal'', ''powershell'', ''spotify'',
     ''code'', ''vscode'', ''vs code'', ''visual studio code'',
     ''paint'', ''word'', ''excel'', ''powerpoint'',
     ''discord'', ''slack'', ''teams'', ''obs'', ''vlc'',
     ''task manager'', ''control panel'', ''settings'',
     ''snipping tool'', ''whatsapp'']"

definition example_window :: window where
  "example_window =
     \<lparr>top = True, is_streaming = False, intents_fired = False, cancel_event = False,
      bubbles = [], bot_label = None\<rparr>"

definition replied_window :: window where
  \<comment> \<open>a turn without local intents, with the whole reply in the bot bubble\<close>
  "replied_window =
     \<lparr>top = True, is_streaming = True, intents_fired = False, cancel_event = False,
      bubbles = [''hello'', BOT_PREFIX @ ''Sure! [ACTION:OPEN_URL|https://x.test]''],
      bot_label = Some 1\<rparr>"

definition example_settings :: settings where
  "example_settings = \<lparr>ollama_url = ''http://localhost:11434/'', model = ''llama3.2''\<rparr>"

definition example_chat :: chat where
  "example_chat = init ''You are Clippy.'' example_settings"

definition down_backend :: backend where
  "down_backend =
     \<lparr>is_running = (\<lambda>url. False),
      list_models = (\<lambda>url. []),
      post = (\<lambda>url model msgs. Inl ConnectionError)\<rparr>"

definition other_model_backend :: backend where
  "other_model_backend =
     \<lparr>is_running = (\<lambda>url. True),
      list_models = (\<lambda>url. [''mistral'']),
      post = (\<lambda>url model msgs. Inr \<lparr>status_code = 404, body = [], lines = []\<rparr>)\<rparr>"

definition cancelled_backend :: backend where
  \<comment> \<open>the event is found set when the second line has arrived\<close>
  "cancelled_backend =
     \<lparr>is_running = (\<lambda>url. True),
      list_models = (\<lambda>url. [''llama3.2'']),
      post = (\<lambda>url model msgs. Inr
        \<lparr>status_code = 200, body = [],
         lines = [Line False (Json \<lparr>err = None, delta = ''Hi'', fin = False\<rparr>),
                  Line True (Json \<lparr>err = None, delta = '' there'', fin = True\<rparr>)]\<rparr>)\<rparr>"

definition replying_backend :: backend where
  \<comment> \<open>one line with the whole reply, read with the event clear\<close>
  "replying_backend =
     \<lparr>is_running = (\<lambda>url. True),
      list_models = (\<lambda>url. [''llama3.2'']),
      post = (\<lambda>url model msgs. Inr
        \<lparr>status_code = 200, body = [],
         lines = [Line False (Json \<lparr>err = None,
                    delta = ''Sure! [ACTION:OPEN_URL|https://x.test]'', fin = True\<rparr>)]\<rparr>)\<rparr>"

text \<open>
  A run of the window: a turn with a local intent, \<open>_clear\<close> while its request is running,
  a second turn without intent, and then the chunk and the completion of the first request.
\<close>

definition first_turn :: "window \<times> job list" where
  "first_turn = send example_host example_apps example_window ''open youtube''"

definition cleared :: "chat \<times> window" where
  "cleared = window_clear ''You are Clippy.'' ''Hi!'' example_chat (fst first_turn)"

definition second_turn :: "window \<times> job list" where
  "second_turn = send example_host example_apps (snd cleared) ''hello, how are you?''"

definition late_reply :: "window \<times> job list" where
  "late_reply = finish_and_run_actions
     (append_chunk (fst second_turn) ''Sure! [ACTION:OPEN_URL|https://x.test]'')"

section \<open>The detector on the four sentences\<close>

lemma apps_order_example: "apps_order example_apps"
  unfolding apps_order_def example_apps_def APPS_def by simp

lemma detect_open_youtube:
  "detect h apps ''open youtube'' = [(''OPEN_URL'', ''https://www.youtube.com'')]"
  by code_simp

lemma detect_find_pdf_files: "detect h apps ''find pdf files'' = [(''FIND_FILE'', ''*.pdf'')]"
  by code_simp

lemma detect_take_a_screenshot: "detect h apps ''take a screenshot'' = [(''SCREENSHOT'', [])]"
  by code_simp

lemma detect_hello: "detect h apps ''hello, how are you?'' = []"
  by code_simp

text \<open>
  C5. \<open>detect\<close> gives \<open>OPEN_URL\<close> with the address of YouTube for "open youtube",
  \<open>FIND_FILE\<close> with \<open>*.pdf\<close> for "find pdf files", \<open>SCREENSHOT\<close> with the empty argument for
  "take a screenshot", and no action for "hello, how are you?"; on every host and for every
  order of \<open>APPS\<close>.
\<close>

theorem detect_examples:
  "detect h apps ''open youtube'' = [(''OPEN_URL'', ''https://www.youtube.com'')] \<and>
   detect h apps ''find pdf files'' = [(''FIND_FILE'', ''*.pdf'')] \<and>
   detect h apps ''take a screenshot'' = [(''SCREENSHOT'', [])] \<and>
   detect h apps ''hello, how are you?'' = []"
  by (simp only: detect_open_youtube detect_find_pdf_files detect_take_a_screenshot detect_hello)

theorem detect_examples_witness:
  "detect example_host example_apps ''open youtube'' =
     [(''OPEN_URL'', ''https://www.youtube.com'')] \<and>
   detect example_host example_apps ''find pdf files'' = [(''FIND_FILE'', ''*.pdf'')] \<and>
   detect example_host example_apps ''take a screenshot'' = [(''SCREENSHOT'', [])] \<and>
   detect example_host example_apps ''hello, how are you?'' = []"
  by (rule detect_examples)

section \<open>Clearing the conversation\<close>

text \<open>
  C8. \<open>clear\<close> leaves exactly the one system message with the system prompt, whatever the
  conversation was, and clearing twice is clearing once.
\<close>

theorem clear_resets:
  "messages (clear system_prompt c) = [\<lparr>role = System, content = system_prompt\<rparr>] \<and>
   clear system_prompt (clear system_prompt c) = clear system_prompt c"
  by (simp add: clear_def)

theorem clear_resets_witness:
  "messages (clear ''You are Clippy.'' example_chat) =
     [\<lparr>role = System, content = ''You are Clippy.''\<rparr>] \<and>
   clear ''You are Clippy.'' (clear ''You are Clippy.'' example_chat) =
     clear ''You are Clippy.'' example_chat"
  by (rule clear_resets)

section \<open>The denylist of SYSTEM_CMD\<close>

lemma lower_append: "lower (a @ b) = lower a @ lower b"
  by (simp add: lower_def)

text \<open>
  A text contains \<open>d\<close> without regard to case when it contains some \<open>v\<close> that is \<open>d\<close> in
  lower case; that is what the test \<open>d in command.lower()\<close> decides.
\<close>

lemma contains_lower_iff:
  "contains (lower s) d \<longleftrightarrow> (\<exists>v. contains s v \<and> lower v = d)"
proof
  assume "contains (lower s) d"
  then obtain ps ss where eq: "lower s = ps @ d @ ss"
    by (auto simp: contains_def sublist_def)
  let ?v = "take (length d) (drop (length ps) s)"
  have s: "s = take (length ps) s @ ?v @ drop (length ps + length d) s"
    by (metis append_take_drop_id drop_drop add.commute)
  have "lower ?v = take (length d) (drop (length ps) (lower s))"
    by (simp add: lower_def take_map drop_map)
  also have "\<dots> = d" by (simp add: eq)
  finally have "lower ?v = d" .
  moreover have "contains s ?v"
    unfolding contains_def sublist_def using s by blast
  ultimately show "\<exists>v. contains s v \<and> lower v = d" by blast
next
  assume "\<exists>v. contains s v \<and> lower v = d"
  then obtain v ps ss where "s = ps @ v @ ss" "lower v = d"
    by (auto simp: contains_def sublist_def)
  then have "lower s = lower ps @ d @ lower ss" by (simp add: lower_append)
  then show "contains (lower s) d" unfolding contains_def sublist_def by blast
qed

text \<open>
  C4. A command that contains an entry \<open>d\<close> of the denylist in any casing \<open>v\<close> is answered
  with the blocked-command message, and \<open>_system_cmd\<close> has made no call to the host: no
  process is started.
\<close>

theorem system_cmd_blocked:
  assumes "d \<in> set dangerous" and "lower v = d" and "contains command v"
  shows "system_cmd h command = ([], Inr (Blocked command))"
proof -
  have "contains (lower command) d"
    using assms(2,3) contains_lower_iff by blast
  then have "find (\<lambda>d. contains (lower command) d) dangerous \<noteq> None"
    using assms(1) by (auto simp: find_None_iff)
  then show ?thesis by (auto simp: system_cmd_def)
qed

lemma lower_ShutDown: "lower ''ShutDown'' = ''shutdown''"
  by code_simp

theorem system_cmd_blocked_witness:
  "''shutdown'' \<in> set dangerous \<and> lower ''ShutDown'' = ''shutdown'' \<and>
   contains ''ShutDown /s /t 0'' ''ShutDown'' \<and>
   system_cmd example_host ''ShutDown /s /t 0'' = ([], Inr (Blocked ''ShutDown /s /t 0''))"
proof -
  have d: "''shutdown'' \<in> set dangerous" by (simp add: dangerous_def)
  have l: "lower ''ShutDown'' = ''shutdown''" by (rule lower_ShutDown)
  have c: "contains ''ShutDown /s /t 0'' ''ShutDown''" by (simp add: contains_def)
  from d l c system_cmd_blocked [OF d l c, of example_host] show ?thesis by simp
qed

section \<open>ActionExecutor.run returns\<close>

text \<open>
  C9. For every host, command and argument, \<open>run\<close> ends with a message and never with an
  exception: it has made the calls of the handler, and its message is the handler's, or the
  failure message with the text of the exception that left the handler.
\<close>

theorem run_returns:
  "\<exists>fx r. run h cmd arg = (fx, Inr r) \<and> fx = fst (dispatch h cmd arg) \<and>
     r = (case snd (dispatch h cmd arg) of Inl e \<Rightarrow> ActionFailed e | Inr r' \<Rightarrow> r')"
  by (cases "dispatch h cmd arg") (auto simp: run_def split: sum.splits)

lemma dispatch_raises:
  "dispatch failing_host ''OPEN_URL'' ''x.test'' = ([Browse ''https://x.test''], Inl ''no browser'')"
  by (simp add: dispatch_def open_url_def failing_host_def example_host_def startswith_def)

theorem run_returns_witness:
  "run failing_host ''OPEN_URL'' ''x.test'' =
     ([Browse ''https://x.test''], Inr (ActionFailed ''no browser''))"
  using run_returns [of failing_host "''OPEN_URL''" "''x.test''"]
  by (auto simp: dispatch_raises)

lemma run_unknown:
  assumes "cmd \<notin> {''OPEN_URL'', ''OPEN_APP'', ''SEARCH_WEB'', ''OPEN_FOLDER'', ''FIND_FILE'',
                   ''SYSTEM_CMD'', ''CLOSE_APP'', ''SCREENSHOT'', ''TYPE_TEXT''}"
  shows "run h cmd arg = ([], Inr (UnknownAction cmd))"
  using assms by (simp add: run_def dispatch_def)

section \<open>OllamaChat.stream\<close>

lemma base_example:
  "''http://localhost:11434'' = rstrip_chars ''/'' (ollama_url (settings example_chat))"
  by (simp add: example_chat_def init_def example_settings_def rstrip_chars_def)

lemma model_example: "model (settings example_chat) = ''llama3.2''"
  by (simp add: example_chat_def init_def example_settings_def)

text \<open>
  C3, as the program has it. \<open>stream\<close> appends the user message first. When the base URL or
  the model is empty, or the liveness probe fails, it reports the configuration error or the
  connectivity error, and the conversation is the one before the call with the user message
  at its end.
\<close>

theorem stream_not_ready:
  assumes "base = rstrip_chars ''/'' (ollama_url (settings c))"
    and "base = [] \<or> model (settings c) = [] \<or> \<not> is_running b base"
  shows "stream b c user_text handler =
     (c\<lparr>messages := messages c @ [\<lparr>role = User, content = user_text\<rparr>]\<rparr>,
      [OnError (if base = [] \<or> model (settings c) = [] then NotConfigured else CantReach base)])"
  using assms by (auto simp: stream_def Let_def)

theorem stream_not_ready_witness:
  "stream down_backend example_chat ''hello'' True =
     (example_chat\<lparr>messages := messages example_chat @ [\<lparr>role = User, content = ''hello''\<rparr>]\<rparr>,
      [OnError (CantReach ''http://localhost:11434'')])"
proof -
  have 2: "''http://localhost:11434'' = [] \<or> model (settings example_chat) = [] \<or>
           \<not> is_running down_backend ''http://localhost:11434''"
    by (simp add: down_backend_def)
  show ?thesis
    using stream_not_ready [OF base_example 2, of "''hello''" True] by (simp add: model_example)
qed

text \<open>
  The claim as the specification has it fails where the backend is down: the conversation is
  not the one before the call.
\<close>

theorem stream_probe_counterexample:
  "snd (stream down_backend example_chat ''hello'' True) =
     [OnError (CantReach ''http://localhost:11434'')] \<and>
   messages (fst (stream down_backend example_chat ''hello'' True)) =
     messages example_chat @ [\<lparr>role = User, content = ''hello''\<rparr>] \<and>
   messages (fst (stream down_backend example_chat ''hello'' True)) \<noteq> messages example_chat"
  by (simp add: stream_def down_backend_def example_chat_def init_def example_settings_def
      rstrip_chars_def)

text \<open>
  C7. When the chat request is answered with status 404: if the backend lists at least one
  model and a handler was given, the conversation is again the one before the call and the
  handler is called with the list; otherwise the error names the missing model and the user
  message stays.
\<close>

theorem stream_model_not_found:
  assumes "base = rstrip_chars ''/'' (ollama_url (settings c))"
    and "base \<noteq> []" and "model (settings c) \<noteq> []" and "is_running b base"
    and "post b (base @ ''/api/chat'') (model (settings c))
           (messages c @ [\<lparr>role = User, content = user_text\<rparr>]) = Inr resp"
    and "status_code resp = 404"
  shows "stream b c user_text handler =
     (if list_models b base \<noteq> [] \<and> handler
      then (c, [OnModelNotFound (list_models b base)])
      else (c\<lparr>messages := messages c @ [\<lparr>role = User, content = user_text\<rparr>]\<rparr>,
            [OnError (ModelNotFound (model (settings c)))]))"
  using assms by (simp add: stream_def Let_def)

theorem stream_model_not_found_witness:
  "stream other_model_backend example_chat ''hello'' True =
     (example_chat, [OnModelNotFound [''mistral'']]) \<and>
   stream other_model_backend example_chat ''hello'' False =
     (example_chat\<lparr>messages := messages example_chat @ [\<lparr>role = User, content = ''hello''\<rparr>]\<rparr>,
      [OnError (ModelNotFound ''llama3.2'')])"
proof -
  let ?resp = "\<lparr>status_code = 404, body = [], lines = []\<rparr>"
  have 2: "''http://localhost:11434'' \<noteq> []" by simp
  have 3: "model (settings example_chat) \<noteq> []" by (simp add: model_example)
  have 4: "is_running other_model_backend ''http://localhost:11434''"
    by (simp add: other_model_backend_def)
  have 5: "post other_model_backend (''http://localhost:11434'' @ ''/api/chat'')
       (model (settings example_chat))
       (messages example_chat @ [\<lparr>role = User, content = ''hello''\<rparr>]) = Inr ?resp"
    by (simp add: other_model_backend_def)
  have 6: "status_code ?resp = 404" by simp
  have l: "list_models other_model_backend ''http://localhost:11434'' = [''mistral'']"
    by (simp add: other_model_backend_def)
  show ?thesis
    using stream_model_not_found [OF base_example 2 3 4 5 6, of True]
      stream_model_not_found [OF base_example 2 3 4 5 6, of False]
    by (simp add: model_example l)
qed

lemma read_lines_goes_on:
  "list_all goes_on pre \<Longrightarrow>
   read_lines (pre @ later) full calls =
   read_lines later (full @ chunks pre) (calls @ map OnChunk (chunks pre))"
proof (induction pre arbitrary: full calls)
  case Nil
  then show ?case by (simp add: chunks_def)
next
  case (Cons x pre)
  then show ?case
  proof (cases x)
    case (Line cancel l)
    with Cons show ?thesis
      by (cases l) (auto simp: chunks_def)
  next
    case (Broken e)
    with Cons show ?thesis by simp
  qed
qed

text \<open>
  C2, as the program has it. When the cancellation event is found set with a line, after
  lines \<open>pre\<close> that the loop has gone through, the loop is left by \<open>break\<close>: no later line
  is read and \<open>on_error\<close> is not called. \<open>stream\<close> then goes on behind the loop: the text
  of the chunks so far, when it is not empty, is appended as the assistant message, and
  \<open>on_done\<close> is called.
\<close>

theorem stream_cancelled:
  assumes "base = rstrip_chars ''/'' (ollama_url (settings c))"
    and "base \<noteq> []" and "model (settings c) \<noteq> []" and "is_running b base"
    and "post b (base @ ''/api/chat'') (model (settings c))
           (messages c @ [\<lparr>role = User, content = user_text\<rparr>]) = Inr resp"
    and "status_code resp = 200"
    and "lines resp = pre @ Line True l # later"
    and "list_all goes_on pre"
  shows "stream b c user_text handler =
     (c\<lparr>messages := messages c @ [\<lparr>role = User, content = user_text\<rparr>] @
         (if concat (chunks pre) \<noteq> []
          then [\<lparr>role = Assistant, content = concat (chunks pre)\<rparr>] else [])\<rparr>,
      map OnChunk (chunks pre) @ [OnDone])"
proof -
  have "read_lines (lines resp) [] [] = (True, chunks pre, map OnChunk (chunks pre))"
    using assms(7,8) by (simp add: read_lines_goes_on)
  then show ?thesis
    using assms(1-6) by (simp add: stream_def Let_def)
qed

theorem stream_cancelled_witness:
  "stream cancelled_backend example_chat ''hello'' False =
     (example_chat\<lparr>messages := messages example_chat @
        [\<lparr>role = User, content = ''hello''\<rparr>, \<lparr>role = Assistant, content = ''Hi''\<rparr>]\<rparr>,
      [OnChunk ''Hi'', OnDone])"
proof -
  let ?resp = "\<lparr>status_code = 200, body = [],
         lines = [Line False (Json \<lparr>err = None, delta = ''Hi'', fin = False\<rparr>),
                  Line True (Json \<lparr>err = None, delta = '' there'', fin = True\<rparr>)]\<rparr>"
  have 2: "''http://localhost:11434'' \<noteq> []" by simp
  have 3: "model (settings example_chat) \<noteq> []" by (simp add: model_example)
  have 4: "is_running cancelled_backend ''http://localhost:11434''"
    by (simp add: cancelled_backend_def)
  have 5: "post cancelled_backend (''http://localhost:11434'' @ ''/api/chat'')
       (model (settings example_chat))
       (messages example_chat @ [\<lparr>role = User, content = ''hello''\<rparr>]) = Inr ?resp"
    by (simp add: cancelled_backend_def)
  have 6: "status_code ?resp = 200" by simp
  have 7: "lines ?resp = [Line False (Json \<lparr>err = None, delta = ''Hi'', fin = False\<rparr>)] @
       Line True (Json \<lparr>err = None, delta = '' there'', fin = True\<rparr>) # []" by simp
  have 8: "list_all goes_on [Line False (Json \<lparr>err = None, delta = ''Hi'', fin = False\<rparr>)]"
    by simp
  show ?thesis
    using stream_cancelled [OF base_example 2 3 4 5 6 7 8, of False] by (simp add: chunks_def)
qed

text \<open>
  The claim as the specification has it fails on a stream cancelled behind its first chunk:
  \<open>on_done\<close> is called, and the assistant message with that chunk is appended.
\<close>

theorem stream_cancelled_counterexample:
  "snd (stream cancelled_backend example_chat ''hello'' True) = [OnChunk ''Hi'', OnDone] \<and>
   messages (fst (stream cancelled_backend example_chat ''hello'' True)) =
     messages example_chat @
       [\<lparr>role = User, content = ''hello''\<rparr>, \<lparr>role = Assistant, content = ''Hi''\<rparr>]"
  by (simp add: stream_def cancelled_backend_def example_chat_def init_def example_settings_def
      rstrip_chars_def)

section \<open>The results of FIND_FILE\<close>

lemma length_taken: "length (taken h pattern d) \<le> 20"
  by (simp add: taken_def)

lemma collect_step:
  "collect h pattern (d # ds) results =
     (if length (results @ taken h pattern d) \<ge> 30 then results @ taken h pattern d
      else collect h pattern ds (results @ taken h pattern d))"
  by (simp add: taken_def Let_def)

lemma collect_three:
  "collect h pattern [d1, d2, d3] [] =
     (if length (taken h pattern d1 @ taken h pattern d2) \<ge> 30
      then taken h pattern d1 @ taken h pattern d2
      else taken h pattern d1 @ taken h pattern d2 @ taken h pattern d3)"
proof -
  have "\<not> length (taken h pattern d1) \<ge> 30"
    using length_taken [of h pattern d1] by simp
  then show ?thesis
    by (simp only: collect_step collect.simps append_Nil append_assoc if_False) simp
qed

lemma collect_bound: "length (collect h pattern ds results) \<le> max (length results) 29 + 20"
proof (induction ds arbitrary: results)
  case Nil
  then show ?case by simp
next
  case (Cons d ds)
  have t: "length (taken h pattern d) \<le> 20" by (rule length_taken)
  show ?case
  proof (cases "length (results @ taken h pattern d) \<ge> 30")
    case True
    then show ?thesis using t by (simp only: collect_step if_True) simp
  next
    case False
    then have "collect h pattern (d # ds) results = collect h pattern ds (results @ taken h pattern d)"
      by (simp only: collect_step if_False)
    moreover have "length (collect h pattern ds (results @ taken h pattern d)) \<le>
        max (length (results @ taken h pattern d)) 29 + 20"
      by (rule Cons.IH)
    ultimately show ?thesis using False by simp
  qed
qed

text \<open>
  C10, as the program has it. \<open>_find_file\<close> takes at most 20 matches from each directory;
  the desktop and the documents are always visited, the downloads unless the first two have
  given 30 or more. The results are at most 49 (the first two directories can give 29, and
  the third 20 more). The text shows the first 10 results and, when there are more than 10,
  ends with the line that counts the others.
\<close>

theorem find_file_bounds:
  "collect h pattern (search_dirs h) [] =
     (if length (taken h pattern (path_join h (home h) ''Desktop'') @
                 taken h pattern (path_join h (home h) ''Documents'')) \<ge> 30
      then taken h pattern (path_join h (home h) ''Desktop'') @
           taken h pattern (path_join h (home h) ''Documents'')
      else taken h pattern (path_join h (home h) ''Desktop'') @
           taken h pattern (path_join h (home h) ''Documents'') @
           taken h pattern (path_join h (home h) ''Downloads'')) \<and>
   length (taken h pattern d) \<le> 20 \<and>
   length (collect h pattern (search_dirs h) []) \<le> 49 \<and>
   find_file h pattern =
     ([], Inr (if collect h pattern (search_dirs h) [] = [] then NoFiles pattern
               else Found (Header (length (collect h pattern (search_dirs h) [])) #
                      map (\<lambda>f. Entry (basename h f) (dirname h f))
                        (take 10 (collect h pattern (search_dirs h) [])) @
                      (if length (collect h pattern (search_dirs h) []) > 10
                       then [AndMore (length (collect h pattern (search_dirs h) []) - 10)]
                       else []))))"
proof -
  have 1: "length (collect h pattern (search_dirs h) []) \<le> 49"
    using collect_bound [of h pattern "search_dirs h" "[]"] by simp
  have 2: "collect h pattern (search_dirs h) [] =
     (if length (taken h pattern (path_join h (home h) ''Desktop'') @
                 taken h pattern (path_join h (home h) ''Documents'')) \<ge> 30
      then taken h pattern (path_join h (home h) ''Desktop'') @
           taken h pattern (path_join h (home h) ''Documents'')
      else taken h pattern (path_join h (home h) ''Desktop'') @
           taken h pattern (path_join h (home h) ''Documents'') @
           taken h pattern (path_join h (home h) ''Downloads''))"
    unfolding search_dirs_def by (rule collect_three)
  have 3: "find_file h pattern =
     ([], Inr (if collect h pattern (search_dirs h) [] = [] then NoFiles pattern
               else Found (Header (length (collect h pattern (search_dirs h) [])) #
                      map (\<lambda>f. Entry (basename h f) (dirname h f))
                        (take 10 (collect h pattern (search_dirs h) [])) @
                      (if length (collect h pattern (search_dirs h) []) > 10
                       then [AndMore (length (collect h pattern (search_dirs h) []) - 10)]
                       else []))))"
    by (simp add: find_file_def Let_def)
  from 1 2 3 length_taken show ?thesis by blast
qed

lemma collect_crowded:
  "collect crowded_host ''*.txt'' (search_dirs crowded_host) [] = replicate 49 ''a.txt''"
  by code_simp

theorem find_file_bounds_witness:
  "length (collect crowded_host ''*.txt'' (search_dirs crowded_host) []) = 49 \<and>
   find_file crowded_host ''*.txt'' =
     ([], Inr (Found (Header 49 # replicate 10 (Entry ''a.txt'' []) @ [AndMore 39])))"
proof -
  have b: "basename crowded_host = (\<lambda>p. p)" "dirname crowded_host = (\<lambda>p. [])"
    by (simp_all add: crowded_host_def example_host_def)
  have "find_file crowded_host ''*.txt'' =
     ([], Inr (if collect crowded_host ''*.txt'' (search_dirs crowded_host) [] = []
               then NoFiles ''*.txt''
               else Found (Header (length (collect crowded_host ''*.txt'' (search_dirs crowded_host) [])) #
                      map (\<lambda>f. Entry (basename crowded_host f) (dirname crowded_host f))
                        (take 10 (collect crowded_host ''*.txt'' (search_dirs crowded_host) [])) @
                      (if length (collect crowded_host ''*.txt'' (search_dirs crowded_host) []) > 10
                       then [AndMore (length (collect crowded_host ''*.txt''
                                (search_dirs crowded_host) []) - 10)]
                       else []))))"
    using find_file_bounds [of crowded_host "''*.txt''" "[]"] by blast
  then show ?thesis
    by (simp add: collect_crowded b)
qed

text \<open>
  The bound of 40 fails where the desktop gives 20 matches, the documents 9 and the downloads
  20: 29 is below 30, so the third directory is visited, and 49 results are collected.
\<close>

theorem find_file_collects_49_counterexample:
  "length (collect crowded_host ''*.txt'' (search_dirs crowded_host) []) = 49 \<and>
   \<not> length (collect crowded_host ''*.txt'' (search_dirs crowded_host) []) \<le> 40"
  by (simp add: collect_crowded)

section \<open>One source of actions in a turn\<close>

lemma append_chunk_intents_fired: "intents_fired (append_chunk w text) = intents_fired w"
  by (simp add: append_chunk_def split: option.splits)

lemma chunks_intents_fired: "intents_fired (foldl append_chunk w cs) = intents_fired w"
  by (induction cs arbitrary: w) (simp_all add: append_chunk_intents_fired)

lemma fired_no_tag_actions: "intents_fired w \<Longrightarrow> snd (finish_and_run_actions w) = []"
  by (simp add: finish_and_run_actions_def Let_def split: option.splits)

lemma strip_open_youtube: "strip ''open youtube'' = ''open youtube''"
  by code_simp

text \<open>
  A turn that runs to its end alone: \<open>_send\<close> takes the text of the entry field in an
  open window that is not streaming, the chunks \<open>cs\<close> of the reply are appended to the bot
  bubble, and the completion follows with nothing else in between. When \<open>detect\<close> returns
  actions for the text, \<open>_intents_fired\<close> is set, the thread for these actions is started
  next to the request, and the completion starts no thread for the tags of the reply. When
  \<open>detect\<close> returns none, the flag is clear and only the request is started.
\<close>

lemma turn_alone:
  assumes "top w" and "\<not> is_streaming w" and "strip entry \<noteq> []"
    and "send h apps w entry = (w1, started1)"
    and "finish_and_run_actions (foldl append_chunk w1 cs) = (w2, started2)"
  shows "(detect h apps (strip entry) \<noteq> [] \<longrightarrow>
            intents_fired w1 \<and>
            started1 = [RunIntents (detect h apps (strip entry)), Stream (strip entry)] \<and>
            started2 = []) \<and>
         (detect h apps (strip entry) = [] \<longrightarrow>
            \<not> intents_fired w1 \<and> started1 = [Stream (strip entry)])"
proof -
  have s: "intents_fired w1 = (detect h apps (strip entry) \<noteq> [])"
    "started1 = (if detect h apps (strip entry) \<noteq> []
                 then [RunIntents (detect h apps (strip entry))] else []) @ [Stream (strip entry)]"
    using assms(1-4) by (auto simp: send_def add_bubble_def Let_def)
  have "intents_fired w1 \<Longrightarrow> started2 = []"
    using fired_no_tag_actions [of "foldl append_chunk w1 cs"] assms(5)
    by (simp add: chunks_intents_fired)
  with s show ?thesis by auto
qed

lemma turn_alone_example:
  "intents_fired (fst (send example_host example_apps example_window ''open youtube'')) \<and>
   snd (send example_host example_apps example_window ''open youtube'') =
     [RunIntents [(''OPEN_URL'', ''https://www.youtube.com'')], Stream ''open youtube''] \<and>
   snd (finish_and_run_actions
     (foldl append_chunk (fst (send example_host example_apps example_window ''open youtube''))
        [''Sure! '', ''[ACTION:OPEN_URL|https://x.test]''])) = []"
proof -
  have 1: "top example_window" and 2: "\<not> is_streaming example_window"
    by (simp_all add: example_window_def)
  have 3: "strip ''open youtube'' \<noteq> []" by (simp add: strip_open_youtube)
  have d: "detect example_host example_apps (strip ''open youtube'') \<noteq> []"
    by (simp add: strip_open_youtube detect_open_youtube)
  show ?thesis
    using turn_alone [OF 1 2 3 surjective_pairing surjective_pairing,
        of example_host example_apps "[''Sure! '', ''[ACTION:OPEN_URL|https://x.test]'']"] d
    by (simp add: strip_open_youtube detect_open_youtube)
qed

section \<open>The tags of a completed reply\<close>

lemma sub_example:
  "re_sub_empty TAG_RE ''Sure! [ACTION:OPEN_URL|https://x.test]'' = ''Sure! ''"
  by code_simp

lemma findall_example:
  "re_findall TAG_BODY_RE ''Sure! [ACTION:OPEN_URL|https://x.test]'' = [''OPEN_URL|https://x.test'']"
  by code_simp

lemma strip_sure: "strip ''Sure! '' = ''Sure!''"
  by code_simp

lemma parse_example: "parse_action ''OPEN_URL|https://x.test'' = (''OPEN_URL'', ''https://x.test'')"
  by code_simp

lemma split1_bar:
  "CHR ''|'' \<notin> set c \<Longrightarrow> split1 CHR ''|'' (c @ CHR ''|'' # a) = (c, Some a)"
proof -
  assume "CHR ''|'' \<notin> set c"
  then have n: "\<And>x. x \<in> set c \<Longrightarrow> x \<noteq> CHR ''|''" by blast
  have "dropWhile (\<lambda>x. x \<noteq> CHR ''|'') (c @ CHR ''|'' # a) = CHR ''|'' # a"
    using n by (simp add: dropWhile_append2)
  moreover have "takeWhile (\<lambda>x. x \<noteq> CHR ''|'') (c @ CHR ''|'' # a) = c"
    using n by (simp add: takeWhile_append2)
  ultimately show ?thesis by (simp add: split1_def)
qed

lemma split1_none: "CHR ''|'' \<notin> set c \<Longrightarrow> split1 CHR ''|'' c = (c, None)"
proof -
  assume "CHR ''|'' \<notin> set c"
  then have d: "dropWhile (\<lambda>x. x \<noteq> CHR ''|'') c = []" by (induction c) auto
  show ?thesis unfolding split1_def by (simp only: d list.case)
qed

text \<open>
  One tag in a text without another opening bracket: the pattern with \<open>*\<close> cuts the tag
  out, and the pattern with the group finds its body, the text between \<open>[ACTION:\<close> and
  the first closing bracket. The greedy repetition backs off to the one state in front of
  the closing bracket.
\<close>

lemma ms_open_tag:
  "ms (Str ''[ACTION:'') \<lparr>seen = l, rest = ''[ACTION:'' @ r, caps = cs\<rparr> =
     [\<lparr>seen = rev ''[ACTION:'' @ l, rest = r, caps = cs\<rparr>]"
  by (simp add: Str_def step_def)

lemma ms_open_tag_other:
  "x \<noteq> CHR ''['' \<Longrightarrow> ms (Seq (Str ''[ACTION:'') r) \<lparr>seen = l, rest = x # xs, caps = cs\<rparr> = []"
  by (simp add: Str_def step_def)

lemma greedy_until:
  assumes "rest s = b @ c # zs" and "c \<notin> set b" and "length b \<le> n"
    and "\<And>t. rest (g t) = rest t"
  shows "concat (map (ms (Chr c)) (map g (greedy (ms (NotChr c)) n s))) =
         ms (Chr c) (g (s\<lparr>seen := rev b @ seen s, rest := c # zs\<rparr>))"
  using assms(1-3)
proof (induction b arbitrary: s n)
  case Nil
  then have g: "greedy (ms (NotChr c)) n s = [s]"
    by (cases n) (simp_all add: step_def)
  have e: "s\<lparr>seen := rev [] @ seen s, rest := c # zs\<rparr> = s"
    using Nil by simp
  show ?case
    by (simp only: g e list.map concat.simps append_Nil2)
next
  case (Cons x b)
  from Cons.prems obtain m where n: "n = Suc m" and m: "length b \<le> m"
    by (cases n) auto
  let ?s' = "s\<lparr>seen := x # seen s, rest := b @ c # zs\<rparr>"
  have x: "x \<noteq> c" and b: "c \<notin> set b" using Cons.prems by auto
  have one: "ms (NotChr c) s = [?s']"
    using Cons.prems x by (simp add: step_def)
  have adv: "advances s ?s'"
    using Cons.prems by (simp add: advances_def)
  have g: "greedy (ms (NotChr c)) n s = greedy (ms (NotChr c)) m ?s' @ [s]"
    by (simp only: n greedy.simps one filter.simps adv if_True list.map concat.simps append_Nil2)
  have last: "ms (Chr c) (g s) = []"
    using Cons.prems x by (simp add: step_def assms(4))
  have e: "?s'\<lparr>seen := rev b @ seen ?s', rest := c # zs\<rparr> =
      s\<lparr>seen := rev (x # b) @ seen s, rest := c # zs\<rparr>"
    by simp
  have "concat (map (ms (Chr c)) (map g (greedy (ms (NotChr c)) m ?s'))) =
        ms (Chr c) (g (?s'\<lparr>seen := rev b @ seen ?s', rest := c # zs\<rparr>))"
    by (rule Cons.IH) (simp_all add: b m)
  then show ?case
    by (simp only: g last e map_append concat_append list.map concat.simps append_Nil2)
qed

lemma first_match_tag_body:
  assumes "CHR '']'' \<notin> set b" and "b \<noteq> []"
  shows "first_match TAG_BODY_RE l (''[ACTION:'' @ b @ CHR '']'' # zs) =
     Some \<lparr>seen = CHR '']'' # rev b @ rev ''[ACTION:'' @ l, rest = zs, caps = [(1, b)]\<rparr>"
proof -
  obtain x b' where b: "b = x # b'" using assms(2) by (cases b) auto
  have x: "x \<noteq> CHR '']''" and b': "CHR '']'' \<notin> set b'" using assms(1) b by auto
  let ?s0 = "\<lparr>seen = rev ''[ACTION:'' @ l, rest = b @ CHR '']'' # zs, caps = []\<rparr>"
  let ?s1 = "?s0\<lparr>seen := x # seen ?s0, rest := b' @ CHR '']'' # zs\<rparr>"
  have plus: "ms (Plus (NotChr CHR '']'')) ?s0 =
      greedy (ms (NotChr CHR '']'')) (length (rest ?s1)) ?s1"
    using x by (simp add: b step_def)
  have "concat (map (ms (Chr CHR '']''))
          (map (close_group 1 ?s0) (greedy (ms (NotChr CHR '']'')) (length (rest ?s1)) ?s1))) =
        ms (Chr CHR '']'') (close_group 1 ?s0 (?s1\<lparr>seen := rev b' @ seen ?s1,
          rest := CHR '']'' # zs\<rparr>))"
    by (rule greedy_until) (simp_all add: b' close_group_def)
  also have "\<dots> = [\<lparr>seen = CHR '']'' # rev b @ rev ''[ACTION:'' @ l, rest = zs,
      caps = [(1, b)]\<rparr>]"
    by (simp add: step_def close_group_def b)
  finally have "ms (Seq (Grp 1 (Plus (NotChr CHR '']''))) (Chr CHR '']'')) ?s0 =
      [\<lparr>seen = CHR '']'' # rev b @ rev ''[ACTION:'' @ l, rest = zs, caps = [(1, b)]\<rparr>]"
    by (simp only: ms.simps(6) ms.simps(12) plus)
  then have "ms TAG_BODY_RE \<lparr>seen = l, rest = ''[ACTION:'' @ b @ CHR '']'' # zs, caps = []\<rparr> =
      [\<lparr>seen = CHR '']'' # rev b @ rev ''[ACTION:'' @ l, rest = zs, caps = [(1, b)]\<rparr>]"
    unfolding TAG_BODY_RE_def seqs.simps
    by (simp only: ms.simps(6) [of "Str ''[ACTION:''"] ms_open_tag list.map concat.simps append_Nil2)
  then show ?thesis by (simp only: first_match_def list.case)
qed


lemma first_match_tag:
  assumes "CHR '']'' \<notin> set b"
  shows "first_match TAG_RE l (''[ACTION:'' @ b @ CHR '']'' # zs) =
     Some \<lparr>seen = CHR '']'' # rev b @ rev ''[ACTION:'' @ l, rest = zs, caps = []\<rparr>"
proof -
  let ?s0 = "\<lparr>seen = rev ''[ACTION:'' @ l, rest = b @ CHR '']'' # zs, caps = []\<rparr>"
  have "concat (map (ms (Chr CHR '']''))
          (map (\<lambda>t. t) (greedy (ms (NotChr CHR '']'')) (length (rest ?s0)) ?s0))) =
        ms (Chr CHR '']'') (?s0\<lparr>seen := rev b @ seen ?s0, rest := CHR '']'' # zs\<rparr>)"
    by (rule greedy_until) (simp_all add: assms)
  also have "\<dots> = [\<lparr>seen = CHR '']'' # rev b @ rev ''[ACTION:'' @ l, rest = zs, caps = []\<rparr>]"
    by (simp add: step_def)
  finally have "ms (Seq (Star (NotChr CHR '']'')) (Chr CHR '']'')) ?s0 =
      [\<lparr>seen = CHR '']'' # rev b @ rev ''[ACTION:'' @ l, rest = zs, caps = []\<rparr>]"
    by (simp only: ms.simps(6) ms.simps(9) list.map_ident)
  then have "ms TAG_RE \<lparr>seen = l, rest = ''[ACTION:'' @ b @ CHR '']'' # zs, caps = []\<rparr> =
      [\<lparr>seen = CHR '']'' # rev b @ rev ''[ACTION:'' @ l, rest = zs, caps = []\<rparr>]"
    unfolding TAG_RE_def seqs.simps
    by (simp only: ms.simps(6) [of "Str ''[ACTION:''"] ms_open_tag list.map concat.simps append_Nil2)
  then show ?thesis by (simp only: first_match_def list.case)
qed

lemma no_tag_here:
  "x \<noteq> CHR ''['' \<Longrightarrow> first_match TAG_RE l (x # xs) = None"
  "x \<noteq> CHR ''['' \<Longrightarrow> first_match TAG_BODY_RE l (x # xs) = None"
  by (simp_all add: first_match_def TAG_RE_def TAG_BODY_RE_def ms_open_tag_other del: ms.simps)

lemma pieces_skip: "pieces r (length xs) l (xs @ zs) = pieces r 0 (rev xs @ l) zs"
  by (induction xs arbitrary: l) simp_all

lemma pieces_outside:
  assumes "\<And>x xs l. x \<noteq> CHR ''['' \<Longrightarrow> first_match r l (x # xs) = None"
    and "CHR ''['' \<notin> set pre"
  shows "pieces r 0 l (pre @ zs) = map Outside pre @ pieces r 0 (rev pre @ l) zs"
  using assms(2)
proof (induction pre arbitrary: l)
  case Nil
  then show ?case by simp
next
  case (Cons x pre)
  from Cons.prems have "x \<noteq> CHR ''[''" by auto
  then have "first_match r l (x # pre @ zs) = None"
    by (rule assms(1))
  with Cons show ?case by simp
qed

lemma pieces_one_tag:
  assumes none: "\<And>x xs l. x \<noteq> CHR ''['' \<Longrightarrow> first_match r l (x # xs) = None"
    and hit: "\<And>l. first_match r l (''[ACTION:'' @ b @ CHR '']'' # zs) = Some (t l)"
    and rest: "\<And>l. rest (t l) = zs"
    and pre: "CHR ''['' \<notin> set pre" and zs: "CHR ''['' \<notin> set zs"
  shows "pieces r 0 [] (pre @ ''[ACTION:'' @ b @ CHR '']'' # zs) =
     map Outside pre @ Hit (t (rev pre)) # map Outside zs"
proof -
  have 1: "pieces r 0 [] (pre @ ''[ACTION:'' @ b @ CHR '']'' # zs) =
      map Outside pre @ pieces r 0 (rev pre) (''[ACTION:'' @ b @ CHR '']'' # zs)"
    using pieces_outside [OF none pre, of "[]"] by simp
  have n: "length (''[ACTION:'' @ b @ CHR '']'' # zs) - length (rest (t (rev pre))) =
      Suc (length (''ACTION:'' @ b @ [CHR '']'']))"
    by (simp add: rest)
  have 2: "pieces r 0 (rev pre) (CHR ''['' # ''ACTION:'' @ b @ CHR '']'' # zs) =
      Hit (t (rev pre)) #
      pieces r (length (''ACTION:'' @ b @ [CHR '']''])) (CHR ''['' # rev pre)
        ((''ACTION:'' @ b @ [CHR '']'']) @ zs)"
    using hit [of "rev pre"] n by simp
  have 3: "pieces r 0 (rev (''ACTION:'' @ b @ [CHR '']'']) @ CHR ''['' # rev pre) (zs @ []) =
      map Outside zs @ pieces r 0 (rev zs @ rev (''ACTION:'' @ b @ [CHR '']'']) @ CHR ''['' # rev pre) []"
    by (rule pieces_outside [OF none zs])
  show ?thesis
    using 1 2 3 by (simp only: pieces_skip) simp
qed

lemma concat_map_empty: "concat (map (\<lambda>x. []) xs) = []"
  by (induction xs) simp_all

lemma one_tag_in_text:
  assumes "CHR ''['' \<notin> set pre" and "CHR ''['' \<notin> set zs" and "CHR '']'' \<notin> set b"
  shows "re_sub_empty TAG_RE (pre @ ''[ACTION:'' @ b @ CHR '']'' # zs) = pre @ zs"
    and "b \<noteq> [] \<Longrightarrow> re_findall TAG_BODY_RE (pre @ ''[ACTION:'' @ b @ CHR '']'' # zs) = [b]"
proof -
  have "pieces TAG_RE 0 [] (pre @ ''[ACTION:'' @ b @ CHR '']'' # zs) =
      map Outside pre @
      Hit \<lparr>seen = CHR '']'' # rev b @ rev ''[ACTION:'' @ rev pre, rest = zs, caps = []\<rparr> #
      map Outside zs"
  proof (rule pieces_one_tag [where t = "\<lambda>l. \<lparr>seen = CHR '']'' # rev b @ rev ''[ACTION:'' @ l,
          rest = zs, caps = []\<rparr>"])
    show "\<And>x xs l. x \<noteq> CHR ''['' \<Longrightarrow> first_match TAG_RE l (x # xs) = None"
      by (rule no_tag_here)
    show "\<And>l. first_match TAG_RE l (''[ACTION:'' @ b @ CHR '']'' # zs) =
        Some \<lparr>seen = CHR '']'' # rev b @ rev ''[ACTION:'' @ l, rest = zs, caps = []\<rparr>"
      using assms(3) by (rule first_match_tag)
  qed (simp_all add: assms)
  then show "re_sub_empty TAG_RE (pre @ ''[ACTION:'' @ b @ CHR '']'' # zs) = pre @ zs"
    by (simp add: re_sub_empty_def comp_def concat_map_empty)
next
  assume b: "b \<noteq> []"
  have "pieces TAG_BODY_RE 0 [] (pre @ ''[ACTION:'' @ b @ CHR '']'' # zs) =
      map Outside pre @
      Hit \<lparr>seen = CHR '']'' # rev b @ rev ''[ACTION:'' @ rev pre, rest = zs, caps = [(1, b)]\<rparr> #
      map Outside zs"
  proof (rule pieces_one_tag [where t = "\<lambda>l. \<lparr>seen = CHR '']'' # rev b @ rev ''[ACTION:'' @ l,
          rest = zs, caps = [(1, b)]\<rparr>"])
    show "\<And>x xs l. x \<noteq> CHR ''['' \<Longrightarrow> first_match TAG_BODY_RE l (x # xs) = None"
      by (rule no_tag_here)
    show "\<And>l. first_match TAG_BODY_RE l (''[ACTION:'' @ b @ CHR '']'' # zs) =
        Some \<lparr>seen = CHR '']'' # rev b @ rev ''[ACTION:'' @ l, rest = zs, caps = [(1, b)]\<rparr>"
      using assms(3) b by (rule first_match_tag_body)
  qed (simp_all add: assms)
  then show "re_findall TAG_BODY_RE (pre @ ''[ACTION:'' @ b @ CHR '']'' # zs) = [b]"
    by (simp add: re_findall_def comp_def group_def concat_map_empty)
qed

lemma drop_prefix: "startswith (BOT_PREFIX @ t) BOT_PREFIX \<and> drop 3 (BOT_PREFIX @ t) = t"
  by (simp add: startswith_def BOT_PREFIX_def)

lemma finish_sure_tag:
  assumes l: "bot_label w = Some i" and i: "i < length (bubbles w)"
    and t: "bubbles w ! i = BOT_PREFIX @ ''Sure! [ACTION:OPEN_URL|https://x.test]''"
    and f: "\<not> intents_fired w"
  shows "finish_and_run_actions w =
        (finish (w\<lparr>bubbles := (bubbles w)[i := BOT_PREFIX @ ''Sure!'']\<rparr>),
         [ExecuteActions [''OPEN_URL|https://x.test'']])"
proof -
  have p: "startswith (bubbles w ! i) BOT_PREFIX"
    and d: "drop 3 (bubbles w ! i) = ''Sure! [ACTION:OPEN_URL|https://x.test]''"
    unfolding t using drop_prefix by blast+
  show ?thesis
    unfolding finish_and_run_actions_def Let_def l option.case
    by (simp only: i if_True p d sub_example findall_example strip_sure f) simp
qed

text \<open>
  C6, as the program has it. With the reply \<open>Sure! [ACTION:OPEN_URL|https://x.test]\<close> in
  the bot bubble and no local intents fired, the completion shows \<open>Sure!\<close> behind the prefix
  and starts one thread with the one tag, which runs \<open>OPEN_URL\<close> with \<open>https://x.test\<close>. In
  general the command of a tag is the text before the first bar, without the white space
  around it and in upper case; the argument is all the text behind the first bar, bars
  included, without the white space around it; a tag without a bar has the empty argument. The body of
  a tag, from which both are read, is the text between \<open>[ACTION:\<close> and the first closing
  bracket; for a text with one tag and no other opening bracket, the tag is cut out of what
  is shown and its body is what is run.
\<close>

theorem finish_runs_tag:
  "(bot_label w = Some i \<and> i < length (bubbles w) \<and>
    bubbles w ! i = BOT_PREFIX @ ''Sure! [ACTION:OPEN_URL|https://x.test]'' \<and>
    \<not> intents_fired w \<longrightarrow>
      finish_and_run_actions w =
        (finish (w\<lparr>bubbles := (bubbles w)[i := BOT_PREFIX @ ''Sure!'']\<rparr>),
         [ExecuteActions [''OPEN_URL|https://x.test'']]) \<and>
      execute_actions h [''OPEN_URL|https://x.test''] = [run h ''OPEN_URL'' ''https://x.test'']) \<and>
   (CHR ''|'' \<notin> set c \<longrightarrow>
      parse_action (c @ CHR ''|'' # a) = (upper (strip c), strip a) \<and>
      parse_action c = (upper (strip c), [])) \<and>
   (CHR ''['' \<notin> set pre \<and> CHR ''['' \<notin> set zs \<and> CHR '']'' \<notin> set b \<and> b \<noteq> [] \<longrightarrow>
      re_sub_empty TAG_RE (pre @ ''[ACTION:'' @ b @ CHR '']'' # zs) = pre @ zs \<and>
      re_findall TAG_BODY_RE (pre @ ''[ACTION:'' @ b @ CHR '']'' # zs) = [b])"
proof (intro conjI impI)
  assume a: "bot_label w = Some i \<and> i < length (bubbles w) \<and>
    bubbles w ! i = BOT_PREFIX @ ''Sure! [ACTION:OPEN_URL|https://x.test]'' \<and>
    \<not> intents_fired w"
  show "finish_and_run_actions w =
        (finish (w\<lparr>bubbles := (bubbles w)[i := BOT_PREFIX @ ''Sure!'']\<rparr>),
         [ExecuteActions [''OPEN_URL|https://x.test'']])"
  proof -
    have l: "bot_label w = Some i" and i: "i < length (bubbles w)"
      and f: "\<not> intents_fired w"
      and t: "bubbles w ! i = BOT_PREFIX @ ''Sure! [ACTION:OPEN_URL|https://x.test]''"
      using a by simp_all
    have p: "startswith (bubbles w ! i) BOT_PREFIX"
      and d: "drop 3 (bubbles w ! i) = ''Sure! [ACTION:OPEN_URL|https://x.test]''"
      unfolding t using drop_prefix by blast+
    show ?thesis
      unfolding finish_and_run_actions_def Let_def l option.case
      by (simp only: i if_True p d sub_example findall_example strip_sure f) simp
  qed
  show "execute_actions h [''OPEN_URL|https://x.test''] = [run h ''OPEN_URL'' ''https://x.test'']"
    by (simp add: execute_actions_def parse_example)
next
  assume "CHR ''|'' \<notin> set c"
  then show "parse_action (c @ CHR ''|'' # a) = (upper (strip c), strip a)"
    by (simp add: parse_action_def split1_bar)
next
  assume "CHR ''|'' \<notin> set c"
  then show "parse_action c = (upper (strip c), [])"
    by (simp add: parse_action_def split1_none)
next
  assume "CHR ''['' \<notin> set pre \<and> CHR ''['' \<notin> set zs \<and> CHR '']'' \<notin> set b \<and> b \<noteq> []"
  then show "re_sub_empty TAG_RE (pre @ ''[ACTION:'' @ b @ CHR '']'' # zs) = pre @ zs"
    using one_tag_in_text(1) by blast
next
  assume "CHR ''['' \<notin> set pre \<and> CHR ''['' \<notin> set zs \<and> CHR '']'' \<notin> set b \<and> b \<noteq> []"
  then show "re_findall TAG_BODY_RE (pre @ ''[ACTION:'' @ b @ CHR '']'' # zs) = [b]"
    using one_tag_in_text(2) by blast
qed

lemma upper_strip_type_text: "upper (strip ''type_text '') = ''TYPE_TEXT''"
  by code_simp

lemma strip_a_b: "strip '' a|b'' = ''a|b''"
  by code_simp

theorem finish_runs_tag_witness:
  "finish_and_run_actions replied_window =
     (finish (replied_window\<lparr>bubbles := [''hello'', BOT_PREFIX @ ''Sure!'']\<rparr>),
      [ExecuteActions [''OPEN_URL|https://x.test'']]) \<and>
   execute_actions example_host [''OPEN_URL|https://x.test''] =
     [run example_host ''OPEN_URL'' ''https://x.test''] \<and>
   parse_action ''type_text | a|b'' = (''TYPE_TEXT'', ''a|b'') \<and>
   re_sub_empty TAG_RE ''ok [ACTION:SCREENSHOT] done'' = ''ok  done'' \<and>
   re_findall TAG_BODY_RE ''ok [ACTION:SCREENSHOT] done'' = [''SCREENSHOT'']"
proof -
  note inst = finish_runs_tag [of replied_window 1 example_host "''type_text ''" "'' a|b''"
      "''ok ''" "'' done''" "''SCREENSHOT''"]
  have t: "CHR ''['' \<notin> set ''ok '' \<and> CHR ''['' \<notin> set '' done'' \<and>
      CHR '']'' \<notin> set ''SCREENSHOT'' \<and> ''SCREENSHOT'' \<noteq> []"
    by simp
  have tag: "re_sub_empty TAG_RE (''ok '' @ ''[ACTION:'' @ ''SCREENSHOT'' @ CHR '']'' # '' done'') =
      ''ok '' @ '' done'' \<and>
    re_findall TAG_BODY_RE (''ok '' @ ''[ACTION:'' @ ''SCREENSHOT'' @ CHR '']'' # '' done'') =
      [''SCREENSHOT'']"
    using inst t by blast
  have w: "bot_label replied_window = Some 1 \<and> 1 < length (bubbles replied_window) \<and>
      bubbles replied_window ! 1 = BOT_PREFIX @ ''Sure! [ACTION:OPEN_URL|https://x.test]'' \<and>
      \<not> intents_fired replied_window"
    by (simp add: replied_window_def)
  have c: "CHR ''|'' \<notin> set ''type_text ''" by simp
  have b: "(bubbles replied_window)[Suc 0 := BOT_PREFIX @ ''Sure!''] =
      [''hello'', BOT_PREFIX @ ''Sure!'']"
    by (simp add: replied_window_def)
  have "parse_action (''type_text '' @ CHR ''|'' # '' a|b'') =
      (upper (strip ''type_text ''), strip '' a|b'')"
    using inst c by blast
  moreover have "finish_and_run_actions replied_window =
      (finish (replied_window\<lparr>bubbles := (bubbles replied_window)[1 := BOT_PREFIX @ ''Sure!'']\<rparr>),
       [ExecuteActions [''OPEN_URL|https://x.test'']]) \<and>
     execute_actions example_host [''OPEN_URL|https://x.test''] =
       [run example_host ''OPEN_URL'' ''https://x.test'']"
    using inst w by blast
  ultimately show ?thesis
    using tag by (simp add: b upper_strip_type_text strip_a_b)
qed

lemma findall_padded:
  "re_findall TAG_BODY_RE ''ok [ACTION:open_url| x.test ]'' = [''open_url| x.test '']"
  by code_simp

lemma parse_padded: "parse_action ''open_url| x.test '' = (''OPEN_URL'', ''x.test'')"
  by code_simp

text \<open>
  The command is not the text before the bar as it stands, nor the argument the text behind
  it: the tag \<open>[ACTION:open_url| x.test ]\<close> runs \<open>OPEN_URL\<close> with \<open>x.test\<close>.
\<close>

theorem tag_as_written_counterexample:
  "re_findall TAG_BODY_RE ''ok [ACTION:open_url| x.test ]'' = [''open_url| x.test ''] \<and>
   parse_action ''open_url| x.test '' = (''OPEN_URL'', ''x.test'') \<and>
   parse_action ''open_url| x.test '' \<noteq> (''open_url'', '' x.test '')"
  by (simp add: findall_padded parse_padded)

section \<open>A turn that is cleared and followed by another\<close>

lemma strip_hello: "strip ''hello, how are you?'' = ''hello, how are you?''"
  by code_simp

lemma first_turn_eq:
  "first_turn =
     (\<lparr>top = True, is_streaming = True, intents_fired = True, cancel_event = False,
       bubbles = [''open youtube'', BOT_PREFIX], bot_label = Some 1\<rparr>,
      [RunIntents [(''OPEN_URL'', ''https://www.youtube.com'')], Stream ''open youtube''])"
  by (simp add: first_turn_def send_def example_window_def add_bubble_def strip_open_youtube
      detect_open_youtube Let_def)

lemma cleared_eq:
  "snd cleared =
     \<lparr>top = True, is_streaming = False, intents_fired = True, cancel_event = True,
      bubbles = [BOT_PREFIX @ ''Hi!''], bot_label = None\<rparr>"
  by (simp add: cleared_def window_clear_def first_turn_eq add_bubble_def Let_def)

lemma second_turn_eq:
  "second_turn =
     (\<lparr>top = True, is_streaming = True, intents_fired = False, cancel_event = False,
       bubbles = [BOT_PREFIX @ ''Hi!'', ''hello, how are you?'', BOT_PREFIX],
       bot_label = Some 2\<rparr>,
      [Stream ''hello, how are you?''])"
  by (simp add: second_turn_def cleared_eq send_def add_bubble_def strip_hello detect_hello Let_def)

lemma first_reply:
  "snd (stream replying_backend example_chat ''open youtube'' True) =
     [OnChunk ''Sure! [ACTION:OPEN_URL|https://x.test]'', OnDone]"
  by (simp add: stream_def replying_backend_def example_chat_def init_def example_settings_def
      rstrip_chars_def)

lemma late_reply_eq:
  "snd late_reply = [ExecuteActions [''OPEN_URL|https://x.test'']]"
proof -
  let ?w = "append_chunk (fst second_turn) ''Sure! [ACTION:OPEN_URL|https://x.test]''"
  have w: "?w = \<lparr>top = True, is_streaming = True, intents_fired = False, cancel_event = False,
       bubbles = [BOT_PREFIX @ ''Hi!'', ''hello, how are you?'',
                  BOT_PREFIX @ ''Sure! [ACTION:OPEN_URL|https://x.test]''],
       bot_label = Some 2\<rparr>"
    by (simp add: second_turn_eq append_chunk_def)
  have "finish_and_run_actions ?w =
      (finish (?w\<lparr>bubbles := (bubbles ?w)[2 := BOT_PREFIX @ ''Sure!'']\<rparr>),
       [ExecuteActions [''OPEN_URL|https://x.test'']])"
    by (rule finish_sure_tag) (simp_all add: w)
  then show ?thesis by (simp add: late_reply_def)
qed

text \<open>
  C1 does not hold on the program. The first turn, "open youtube", fires its local intent.
  \<open>_clear\<close> sets the cancellation event and ends the streaming state, but the thread of the
  request goes on. The second turn, "hello, how are you?", has no intent: \<open>_send\<close> clears the
  flag and the event. The first request has read no line in between, so it never finds the
  event set; its reply arrives, and its completion finds the flag clear and starts the thread
  for the tag of the first turn's reply. In the first turn both the local intent and the tag
  of the reply are run.
\<close>

theorem cleared_turn_runs_both:
  "snd first_turn =
     [RunIntents [(''OPEN_URL'', ''https://www.youtube.com'')], Stream ''open youtube''] \<and>
   intents_fired (fst first_turn) \<and>
   cancel_event (snd cleared) \<and> \<not> is_streaming (snd cleared) \<and>
   snd second_turn = [Stream ''hello, how are you?''] \<and>
   \<not> cancel_event (fst second_turn) \<and> \<not> intents_fired (fst second_turn) \<and>
   snd (stream replying_backend example_chat ''open youtube'' True) =
     [OnChunk ''Sure! [ACTION:OPEN_URL|https://x.test]'', OnDone] \<and>
   snd late_reply = [ExecuteActions [''OPEN_URL|https://x.test'']] \<and>
   execute_actions example_host [''OPEN_URL|https://x.test''] =
     [run example_host ''OPEN_URL'' ''https://x.test'']"
  by (simp add: first_turn_eq cleared_eq second_turn_eq first_reply late_reply_eq
      execute_actions_def parse_example)

end
